theory Spec2Isabelle
  imports Complex_Main
begin

section \<open>The HATEOAS bank API (hateoas-bank-api.go)\<close>

subsection \<open>float64\<close>

text \<open>
  \<open>Account.Balance\<close> and \<open>Transaction.Amount\<close> are Go \<open>float64\<close> values (IEEE 754
  binary64). Every finite binary64 value is an integer multiple of \<open>2 ^ -1074\<close>, so a
  finite value is kept as a sign (\<open>True\<close> is negative) and its magnitude counted in units of
  \<open>2 ^ -1074\<close>. The magnitudes of binary64 are the naturals below \<open>2 ^ 53\<close> and the
  \<open>q * 2 ^ k\<close> with \<open>2 ^ 52 \<le> q < 2 ^ 53\<close> and \<open>k \<le> 2045\<close>; the largest is
  \<open>max_magnitude\<close>.
\<close>

datatype float64 = Finite bool nat | Infinity bool | NaN

definition max_magnitude :: nat where
  "max_magnitude = (2 ^ 53 - 1) * 2 ^ 2045"

definition fzero :: float64 where
  "fzero = Finite False 0"

fun is_finite :: "float64 \<Rightarrow> bool" where
  "is_finite (Finite s m) = True"
| "is_finite (Infinity s) = False"
| "is_finite NaN = False"

text \<open>
  A finite value whose magnitude does not exceed the largest binary64 magnitude. (The type
  has more finite magnitudes than binary64 has; the operations below produce rounded
  magnitudes only, and what is proved of every value of the type holds of every binary64
  value.)
\<close>

fun in_range :: "float64 \<Rightarrow> bool" where
  "in_range (Finite s m) = (m \<le> max_magnitude)"
| "in_range (Infinity s) = False"
| "in_range NaN = False"

definition signed :: "bool \<Rightarrow> nat \<Rightarrow> int" where
  "signed s m = (if s then - int m else int m)"

text \<open>Go's \<open>x < y\<close> and \<open>x <= y\<close>: every comparison with NaN is false, and \<open>-0 == +0\<close>.\<close>

fun float_lt :: "float64 \<Rightarrow> float64 \<Rightarrow> bool" where
  "float_lt NaN y = False"
| "float_lt x NaN = False"
| "float_lt (Infinity sx) (Infinity sy) = (sx \<and> \<not> sy)"
| "float_lt (Infinity sx) (Finite sy my) = sx"
| "float_lt (Finite sx mx) (Infinity sy) = (\<not> sy)"
| "float_lt (Finite sx mx) (Finite sy my) = (signed sx mx < signed sy my)"

fun float_le :: "float64 \<Rightarrow> float64 \<Rightarrow> bool" where
  "float_le NaN y = False"
| "float_le x NaN = False"
| "float_le (Infinity sx) (Infinity sy) = (sx \<or> \<not> sy)"
| "float_le (Infinity sx) (Finite sy my) = sx"
| "float_le (Finite sx mx) (Infinity sy) = (\<not> sy)"
| "float_le (Finite sx mx) (Finite sy my) = (signed sx mx \<le> signed sy my)"

text \<open>The number of binary digits of a natural number.\<close>

fun bit_length :: "nat \<Rightarrow> nat" where
  "bit_length n = (if n = 0 then 0 else Suc (bit_length (n div 2)))"

declare bit_length.simps [simp del]

text \<open>
  Rounding of an exact magnitude to 53 significant bits, to nearest, ties to even. Below
  \<open>2 ^ 53\<close> every magnitude is a binary64 magnitude (the subnormals and the first
  binade share the unit \<open>2 ^ -1074\<close>).
\<close>

definition round_magnitude :: "nat \<Rightarrow> nat" where
  "round_magnitude n =
     (if n < 2 ^ 53 then n
      else
        let k = bit_length n - 53;
            q = n div 2 ^ k;
            r = n mod 2 ^ k;
            half = 2 ^ (k - 1);
            q' = (if half < r \<or> (r = half \<and> odd q) then q + 1 else q)
        in q' * 2 ^ k)"

text \<open>A rounded magnitude of \<open>2 ^ 1024\<close> (\<open>2 ^ 2098\<close> units) or more overflows to infinity.\<close>

definition round_finite :: "bool \<Rightarrow> nat \<Rightarrow> float64" where
  "round_finite s n =
     (let m = round_magnitude n in if max_magnitude < m then Infinity s else Finite s m)"

text \<open>
  Go's \<open>x + y\<close>. An exact sum of zero is \<open>+0\<close> unless both operands are \<open>-0\<close>.
\<close>

fun fadd :: "float64 \<Rightarrow> float64 \<Rightarrow> float64" where
  "fadd NaN y = NaN"
| "fadd x NaN = NaN"
| "fadd (Infinity sx) (Infinity sy) = (if sx = sy then Infinity sx else NaN)"
| "fadd (Infinity sx) (Finite sy my) = Infinity sx"
| "fadd (Finite sx mx) (Infinity sy) = Infinity sy"
| "fadd (Finite sx mx) (Finite sy my) =
     (let v = signed sx mx + signed sy my
      in if v = 0 then Finite (sx \<and> sy) 0 else round_finite (v < 0) (nat \<bar>v\<bar>))"

fun fneg :: "float64 \<Rightarrow> float64" where
  "fneg (Finite s m) = Finite (\<not> s) m"
| "fneg (Infinity s) = Infinity (\<not> s)"
| "fneg NaN = NaN"

text \<open>Go's \<open>x - y\<close>, which IEEE 754 defines as \<open>x + (-y)\<close>.\<close>

definition fsub :: "float64 \<Rightarrow> float64 \<Rightarrow> float64" where
  "fsub x y = fadd x (fneg y)"

text \<open>The real number that a finite value denotes.\<close>

fun valof :: "float64 \<Rightarrow> real option" where
  "valof (Finite s m) = Some (real_of_int (signed s m) / 2 ^ 1074)"
| "valof (Infinity s) = None"
| "valof NaN = None"

text \<open>The binary64 value of a natural number below \<open>2 ^ 53\<close> (one is \<open>2 ^ 1074\<close> units).\<close>

definition float_of_nat :: "nat \<Rightarrow> float64" where
  "float_of_nat n = Finite False (n * 2 ^ 1074)"

subsection \<open>Strings\<close>

text \<open>\<open>strings.HasSuffix\<close>, \<open>strings.TrimPrefix\<close> and \<open>strings.Split\<close> with separator \<open>/\<close>.\<close>

definition HasSuffix :: "string \<Rightarrow> string \<Rightarrow> bool" where
  "HasSuffix s suffix =
     (length suffix \<le> length s \<and> drop (length s - length suffix) s = suffix)"

definition HasPrefix :: "string \<Rightarrow> string \<Rightarrow> bool" where
  "HasPrefix s prefix = (length prefix \<le> length s \<and> take (length prefix) s = prefix)"

definition TrimPrefix :: "string \<Rightarrow> string \<Rightarrow> string" where
  "TrimPrefix s prefix = (if HasPrefix s prefix then drop (length prefix) s else s)"

fun Split :: "string \<Rightarrow> string list" where
  "Split [] = [[]]"
| "Split (c # cs) =
     (if c = CHR ''/'' then [] # Split cs
      else (case Split cs of [] \<Rightarrow> [[c]] | p # ps \<Rightarrow> (c # p) # ps))"

subsection \<open>Data\<close>

record Link =
  Href :: string
  Method :: string
  Rel :: string

record Account =
  AccountID :: string
  AccountHolder :: string
  Balance :: float64
  Currency :: string
  Links :: "string \<rightharpoonup> Link"

record Transaction =
  Amount :: float64

text \<open>
  The global \<open>accounts\<close> maps an id to a pointer to its own \<open>Account\<close>; no two ids
  share one, so the store is a map from ids to account values.
\<close>

type_synonym Store = "string \<rightharpoonup> Account"

text \<open>
  The initial value of \<open>accounts\<close>. \<open>1250.75 = 5003 / 4\<close> and \<open>150.25 = 601 / 4\<close>, so both
  are exact in binary64; a quarter is \<open>2 ^ 1072\<close> units. The stored accounts have no links
  (a nil map).
\<close>

definition accounts :: Store where
  "accounts =
     [''acc-123'' \<mapsto>
        \<lparr>AccountID = ''acc-123'', AccountHolder = ''John Doe'',
         Balance = Finite False (5003 * 2 ^ 1072), Currency = ''USD'', Links = Map.empty\<rparr>,
      ''acc-456'' \<mapsto>
        \<lparr>AccountID = ''acc-456'', AccountHolder = ''Jane Smith'',
         Balance = Finite True (601 * 2 ^ 1072), Currency = ''USD'', Links = Map.empty\<rparr>]"

subsection \<open>Requests and responses\<close>

text \<open>
  What is read of the request: the method, \<open>r.URL.Path\<close> (taken to have no percent
  escapes, so that it is its own escaped form), \<open>r.Host\<close>, and the body.
  \<open>json.NewDecoder(r.Body).Decode(&transaction)\<close> reads the first JSON value of the body
  and nothing after it. \<open>Body\<close> is the outcome of \<open>Decode\<close> on that value: \<open>None\<close> when
  \<open>Decode\<close> returns an error (there is no value, it is not valid JSON, or it does not fit a
  transaction), the decoded transaction otherwise (an object without an \<open>amount\<close> member
  decodes to the amount \<open>+0\<close>). \<open>Trailing\<close> is what the body holds after that value; no
  handler reads it.
\<close>

record Request =
  ReqMethod :: string
  URLPath :: string
  Host :: string
  Body :: "Transaction option"
  Trailing :: string

text \<open>
  The white space of JSON (\<open>isSpace\<close> of encoding/json). A body with anything else after
  its first JSON value is not a JSON text.
\<close>

definition isSpace :: "char \<Rightarrow> bool" where
  "isSpace c = (c = CHR '' '' \<or> c = CHR 0x09 \<or> c = CHR 0x0D \<or> c = CHR 0x0A)"

definition trailingData :: "Request \<Rightarrow> bool" where
  "trailingData r = list_ex (\<lambda>c. \<not> isSpace c) (Trailing r)"

text \<open>
  What a handler does to the \<open>ResponseWriter\<close>: the status (200 when \<open>WriteHeader\<close> is
  never called), the Content-Type header when the handler sets it, and what is written:
  nothing, the object \<open>{"error": msg}\<close>, or an account representation.
\<close>

datatype Payload = NoBody | ErrorJSON string | AccountJSON Account

record Response =
  Status :: nat
  ContentType :: "string option"
  Written :: Payload

text \<open>
  \<open>json.NewEncoder(w).Encode(accountCopy)\<close>: encoding/json rejects \<open>+Inf\<close>, \<open>-Inf\<close> and
  NaN with an UnsupportedValueError before anything is written, and the handlers ignore
  the error that \<open>Encode\<close> returns.
\<close>

definition Encode :: "Account \<Rightarrow> Payload" where
  "Encode a = (if is_finite (Balance a) then AccountJSON a else NoBody)"

subsection \<open>Handlers\<close>

definition addHATEOASLinks :: "Account \<Rightarrow> string \<Rightarrow> Account" where
  "addHATEOASLinks account baseURL =
     (let links = Map.empty;
          links = links(''self'' \<mapsto>
            \<lparr>Href = baseURL @ ''/accounts/'' @ AccountID account,
             Method = ''GET'', Rel = ''self''\<rparr>);
          links = links(''deposit'' \<mapsto>
            \<lparr>Href = baseURL @ ''/accounts/'' @ AccountID account @ ''/deposit'',
             Method = ''POST'', Rel = ''deposit''\<rparr>);
          links = (if float_lt fzero (Balance account)
                   then links(''withdraw'' \<mapsto>
                     \<lparr>Href = baseURL @ ''/accounts/'' @ AccountID account @ ''/withdraw'',
                      Method = ''POST'', Rel = ''withdraw''\<rparr>)
                   else links)
      in account\<lparr>Links := links\<rparr>)"

definition respond :: "nat \<Rightarrow> Payload \<Rightarrow> Response" where
  "respond code p = \<lparr>Status = code, ContentType = None, Written = p\<rparr>"

text \<open>The common tail of the three handlers: links on a copy, the header, the encoding.\<close>

definition respondAccount :: "Account \<Rightarrow> Request \<Rightarrow> Response" where
  "respondAccount account r =
     (let accountCopy = account;
          baseURL = ''http://'' @ Host r;
          accountCopy = addHATEOASLinks accountCopy baseURL
      in \<lparr>Status = 200, ContentType = Some ''application/json'',
          Written = Encode accountCopy\<rparr>)"

definition getAccount :: "Request \<Rightarrow> Store \<Rightarrow> Response \<times> Store" where
  "getAccount r accts =
     (if ReqMethod r \<noteq> ''GET'' then (respond 405 NoBody, accts)
      else
        let accountID = TrimPrefix (URLPath r) ''/accounts/''
        in case accts accountID of
             None \<Rightarrow> (respond 404 NoBody, accts)
           | Some account \<Rightarrow> (respondAccount account r, accts))"

definition deposit :: "Request \<Rightarrow> Store \<Rightarrow> Response \<times> Store" where
  "deposit r accts =
     (if ReqMethod r \<noteq> ''POST'' then (respond 405 NoBody, accts)
      else
        let parts = Split (URLPath r)
        in if length parts < 3 then (respond 400 NoBody, accts)
           else
             let accountID = parts ! 2
             in case accts accountID of
                  None \<Rightarrow> (respond 404 NoBody, accts)
                | Some account \<Rightarrow>
                    (case Body r of
                       None \<Rightarrow> (respond 400 NoBody, accts)
                     | Some transaction \<Rightarrow>
                         if float_le (Amount transaction) fzero
                         then (respond 400 (ErrorJSON ''Amount must be positive''), accts)
                         else
                           let account =
                                 account\<lparr>Balance := fadd (Balance account) (Amount transaction)\<rparr>
                           in (respondAccount account r, accts(accountID \<mapsto> account))))"

definition withdraw :: "Request \<Rightarrow> Store \<Rightarrow> Response \<times> Store" where
  "withdraw r accts =
     (if ReqMethod r \<noteq> ''POST'' then (respond 405 NoBody, accts)
      else
        let parts = Split (URLPath r)
        in if length parts < 3 then (respond 400 NoBody, accts)
           else
             let accountID = parts ! 2
             in case accts accountID of
                  None \<Rightarrow> (respond 404 NoBody, accts)
                | Some account \<Rightarrow>
                    if float_le (Balance account) fzero
                    then (respond 403
                            (ErrorJSON ''Withdrawal not allowed with negative balance''), accts)
                    else
                      (case Body r of
                         None \<Rightarrow> (respond 400 NoBody, accts)
                       | Some transaction \<Rightarrow>
                           if float_le (Amount transaction) fzero
                           then (respond 400 (ErrorJSON ''Amount must be positive''), accts)
                           else
                             let account =
                                   account\<lparr>Balance := fsub (Balance account) (Amount transaction)\<rparr>
                             in (respondAccount account r, accts(accountID \<mapsto> account))))"

text \<open>
  The function that \<open>main\<close> registers for the pattern \<open>/accounts/\<close>. (The mux that calls
  it is \<open>DefaultServeMux\<close> below.)
\<close>

definition handler :: "Request \<Rightarrow> Store \<Rightarrow> Response \<times> Store" where
  "handler r accts =
     (let path = URLPath r
      in if HasSuffix path ''/deposit'' then deposit r accts
         else if HasSuffix path ''/withdraw'' then withdraw r accts
         else getAccount r accts)"

text \<open>
  Requests that reach the handler, served one after the other. (net/http runs every request
  in a goroutine of its own and the handlers take no lock; requests that overlap are
  outside this model.)
\<close>

fun serve :: "Request list \<Rightarrow> Store \<Rightarrow> Response list \<times> Store" where
  "serve [] accts = ([], accts)"
| "serve (r # rs) accts =
     (case handler r accts of
        (resp, accts') \<Rightarrow>
          (case serve rs accts' of (resps, accts'') \<Rightarrow> (resp # resps, accts'')))"

subsection \<open>The server\<close>

text \<open>
  \<open>main\<close> registers the handler for the pattern \<open>/accounts/\<close> on \<open>http.DefaultServeMux\<close>
  and serves with it, so a request reaches the handler through the mux of net/http.
  \<open>strings.Join\<close> with separator \<open>/\<close>, \<open>path.Clean\<close> on a rooted path (empty and \<open>.\<close>
  elements are dropped, a \<open>..\<close> element drops the element before it, if any) and the mux's
  \<open>cleanPath\<close>, which makes the path rooted and keeps a trailing slash.
\<close>

fun Join :: "string list \<Rightarrow> string" where
  "Join [] = []"
| "Join [x] = x"
| "Join (x # y # ys) = x @ CHR ''/'' # Join (y # ys)"

fun cleanElements :: "string list \<Rightarrow> string list \<Rightarrow> string list" where
  "cleanElements out [] = rev out"
| "cleanElements out (e # es) =
     (if e = [] \<or> e = ''.'' then cleanElements out es
      else if e = ''..'' then cleanElements (tl out) es
      else cleanElements (e # out) es)"

definition Clean :: "string \<Rightarrow> string" where
  "Clean p = CHR ''/'' # Join (cleanElements [] (Split p))"

definition cleanPath :: "string \<Rightarrow> string" where
  "cleanPath p =
     (if p = [] then ''/''
      else
        let p = (if hd p \<noteq> CHR ''/'' then CHR ''/'' # p else p);
            np = Clean p
        in if last p = CHR ''/'' \<and> np \<noteq> ''/'' then np @ ''/'' else np)"

text \<open>
  What the mux does with a request for a path (the request target \<open>*\<close> is not modelled):
  it answers with a redirect to another path (status 301 or 307, by the release of Go), or
  with its own 404 page when no pattern matches, or it calls the handler. A path of a
  request other than CONNECT is cleaned first; \<open>/accounts\<close> is redirected to
  \<open>/accounts/\<close>; a path that cleaning changes is redirected to the cleaned path; every
  path that starts with \<open>/accounts/\<close> matches the pattern. The mux cleans and matches the
  escaped path, which is \<open>URLPath\<close> for the requests of this model.
\<close>

datatype Served = Redirect string | NoHandler | Handled Response

definition DefaultServeMux :: "Request \<Rightarrow> Store \<Rightarrow> Served \<times> Store" where
  "DefaultServeMux r accts =
     (let path = (if ReqMethod r = ''CONNECT'' then URLPath r else cleanPath (URLPath r))
      in if path = ''/accounts'' then (Redirect ''/accounts/'', accts)
         else if path \<noteq> URLPath r then (Redirect path, accts)
         else if HasPrefix path ''/accounts/''
              then (case handler r accts of (resp, accts') \<Rightarrow> (Handled resp, accts'))
              else (NoHandler, accts))"

subsection \<open>Sample requests\<close>

text \<open>
  A request to the server that \<open>main\<close> starts, as the curl lines it prints send them.
\<close>

definition request :: "string \<Rightarrow> string \<Rightarrow> Transaction option \<Rightarrow> Request" where
  "request m p b =
     \<lparr>ReqMethod = m, URLPath = p, Host = ''localhost:9001'', Body = b, Trailing = []\<rparr>"

text \<open>
  A deposit of \<open>2 ^ 1023\<close> (about \<open>8.99e307\<close>, a finite binary64 value that a JSON
  number can spell) into acc-123, and a withdrawal of 1 from it.
\<close>

definition huge_deposit :: Request where
  "huge_deposit =
     request ''POST'' ''/accounts/acc-123/deposit'' (Some \<lparr>Amount = Finite False (2 ^ 2097)\<rparr>)"

definition unit_withdrawal :: Request where
  "unit_withdrawal =
     request ''POST'' ''/accounts/acc-123/withdraw'' (Some \<lparr>Amount = float_of_nat 1\<rparr>)"

text \<open>
  A deposit of 5 into acc-456 with the body \<open>{"amount": 5}}}\<close>: the first JSON value is
  \<open>{"amount": 5}\<close>, and \<open>}}\<close> follows it.
\<close>

definition deposit_with_trailing_braces :: Request where
  "deposit_with_trailing_braces =
     (request ''POST'' ''/accounts/acc-456/deposit'' (Some \<lparr>Amount = float_of_nat 5\<rparr>))
       \<lparr>Trailing := ''}}''\<rparr>"

text \<open>The store in which the balance of acc-123 has become \<open>b\<close>.\<close>

definition accounts_with :: "float64 \<Rightarrow> Store" where
  "accounts_with b = accounts(''acc-123'' \<mapsto> (the (accounts ''acc-123''))\<lparr>Balance := b\<rparr>)"

section \<open>The discovery engine\<close>

text \<open>
  The Capability Mapper, the Discovery Engine and the Notification Dispatcher (the README's
  mcp-server.py) are not among the sources. Every definition of this section is modelled
  from sections 3, 4.2, 4.3 and 4.4 of the specification.
\<close>

text \<open>
  Modelled from the spec: the client's data types are missing. An action descriptor has a
  target URL, an HTTP method (which may be absent) and a relation name.
\<close>

record ActionDescriptor =
  descHref :: string
  descMethod :: "string option"
  descRel :: string

text \<open>
  Modelled from the spec: the client's data types are missing. A resource representation
  has an identifier and an action map from relation names to action descriptors, kept as
  an association list in the order the entries were received.
\<close>

record Representation =
  resourceID :: string
  actionMap :: "(string \<times> ActionDescriptor) list"

text \<open>
  Modelled from the spec: the client's data types are missing. A capability has a name, a
  target and a method.
\<close>

record Capability =
  capName :: string
  capTarget :: string
  capMethod :: string

text \<open>
  Modelled from the spec: the client's data types are missing. A catalog is a collection of
  capabilities with a version number and the time it was computed.
\<close>

record Catalog =
  capabilities :: "Capability list"
  version :: nat
  timestamp :: nat

text \<open>
  Modelled from the spec: the catalog comparison is missing. What a catalog holds: its
  capability names, each with its (target, method) pair.
\<close>

definition catalogContent :: "Catalog \<Rightarrow> (string \<times> string \<times> string) set" where
  "catalogContent c = set (map (\<lambda>k. (capName k, capTarget k, capMethod k)) (capabilities c))"

text \<open>
  Modelled from the spec: the catalog comparison is missing. Two catalogs are equal iff they
  contain the same set of capability names, each mapping to the same (target, method) pair;
  version and timestamp are excluded from equality.
\<close>

definition catalogEqual :: "Catalog \<Rightarrow> Catalog \<Rightarrow> bool" where
  "catalogEqual c d = (catalogContent c = catalogContent d)"

text \<open>
  Modelled from the spec: the Capability Mapper is missing. For an entry of the action map
  it emits one capability with name = relation key, target = href, method = method (GET if
  absent).
\<close>

definition capabilityOf :: "string \<times> ActionDescriptor \<Rightarrow> Capability" where
  "capabilityOf e =
     \<lparr>capName = fst e, capTarget = descHref (snd e),
      capMethod = (case descMethod (snd e) of None \<Rightarrow> ''GET'' | Some m \<Rightarrow> m)\<rparr>"

text \<open>
  Modelled from the spec: the Capability Mapper is missing. It maps a representation to a
  catalog of version 0 with one capability for every entry of the action map.
\<close>

definition mapRepresentation :: "Representation \<Rightarrow> Catalog" where
  "mapRepresentation rep =
     \<lparr>capabilities = map capabilityOf (actionMap rep), version = 0, timestamp = 0\<rparr>"

text \<open>
  Modelled from the spec: the Resource Client is missing. A fetch fails with one of three
  errors.
\<close>

datatype FetchError = NetworkError | NotFound | DecodeError

text \<open>
  Modelled from the spec: the Discovery Engine and the Notification Dispatcher are missing.
  The engine owns the current catalog; the dispatcher holds one queue of notifications for
  every live subscription.
\<close>

record Engine =
  current :: Catalog
  queues :: "Catalog list list"

text \<open>
  Modelled from the spec: the Notification Dispatcher is missing. publish delivers the new
  catalog to every live subscription. (The spec allows a full queue to drop its oldest
  entry; the queues here are not bounded.)
\<close>

definition publish :: "Catalog \<Rightarrow> Catalog list list \<Rightarrow> Catalog list list" where
  "publish c qs = map (\<lambda>q. q @ [c]) qs"

text \<open>
  Modelled from the spec: the Discovery Engine is missing. One poll at time \<open>now\<close>: a
  failed fetch leaves everything untouched. Otherwise the candidate catalog is compared
  with the published one: if equal the poll is a no-op (Stable); if different (Publishing)
  the candidate gets the previous version plus one and the timestamp \<open>now\<close>, is
  installed and is published.
\<close>

definition poll :: "nat \<Rightarrow> FetchError + Representation \<Rightarrow> Engine \<Rightarrow> Engine" where
  "poll now fetched e =
     (case fetched of
        Inl err \<Rightarrow> e
      | Inr rep \<Rightarrow>
          let candidate = mapRepresentation rep
          in if catalogEqual candidate (current e) then e
             else
               let newCatalog = candidate\<lparr>version := version (current e) + 1, timestamp := now\<rparr>
               in \<lparr>current = newCatalog, queues = publish newCatalog (queues e)\<rparr>)"

text \<open>
  Modelled from the spec: the Discovery Engine is missing. On startup the published catalog
  is empty, with version 0.
\<close>

definition startup :: "nat \<Rightarrow> Engine" where
  "startup subscribers =
     \<lparr>current = \<lparr>capabilities = [], version = 0, timestamp = 0\<rparr>,
      queues = replicate subscribers []\<rparr>"

text \<open>
  Two representations of acc-123 as the client may decode them from the same response: the
  same three entries of \<open>_links\<close>, in two orders.
\<close>

definition action :: "string \<Rightarrow> string \<Rightarrow> string \<Rightarrow> string \<times> ActionDescriptor" where
  "action name m path =
     (name, \<lparr>descHref = ''http://localhost:9001'' @ path, descMethod = Some m, descRel = name\<rparr>)"

definition fetched_in_order :: Representation where
  "fetched_in_order =
     \<lparr>resourceID = ''acc-123'',
      actionMap =
        [action ''self'' ''GET'' ''/accounts/acc-123'',
         action ''deposit'' ''POST'' ''/accounts/acc-123/deposit'',
         action ''withdraw'' ''POST'' ''/accounts/acc-123/withdraw'']\<rparr>"

definition fetched_reordered :: Representation where
  "fetched_reordered =
     \<lparr>resourceID = ''acc-123'',
      actionMap =
        [action ''withdraw'' ''POST'' ''/accounts/acc-123/withdraw'',
         action ''self'' ''GET'' ''/accounts/acc-123'',
         action ''deposit'' ''POST'' ''/accounts/acc-123/deposit'']\<rparr>"

section \<open>Properties of the float64 operations\<close>

lemma bit_length_bounds: "0 < n \<Longrightarrow> 2 ^ (bit_length n - 1) \<le> n \<and> n < 2 ^ bit_length n"
proof (induction n rule: bit_length.induct)
  case (1 n)
  show ?case
  proof (cases "n div 2 = 0")
    case True
    with "1.prems" have "n = 1" by (simp add: div_eq_0_iff)
    then show ?thesis by (simp add: bit_length.simps)
  next
    case False
    then have h: "0 < n div 2" by simp
    from "1.prems" have n0: "n \<noteq> 0" by simp
    from "1.IH" [OF n0 h]
    have lo: "2 ^ (bit_length (n div 2) - 1) \<le> n div 2"
      and hi: "n div 2 < 2 ^ bit_length (n div 2)" by simp_all
    have b: "bit_length n = Suc (bit_length (n div 2))"
      using n0 by (subst bit_length.simps) simp
    have pos: "0 < bit_length (n div 2)"
      using h by (subst bit_length.simps) simp
    have "2 * 2 ^ (bit_length (n div 2) - 1) \<le> n" using lo by simp
    moreover have "2 * 2 ^ (bit_length (n div 2) - 1) = (2::nat) ^ bit_length (n div 2)"
      using pos by (cases "bit_length (n div 2)") simp_all
    moreover have "n < 2 * 2 ^ bit_length (n div 2)" using hi by simp
    ultimately show ?thesis by (simp add: b)
  qed
qed

lemma bit_length_eq:
  assumes lo: "2 ^ b \<le> n" and hi: "n < 2 ^ Suc b"
  shows "bit_length n = Suc b"
proof -
  have n0: "0 < n" using lo by (cases "n = 0") simp_all
  from bit_length_bounds [OF n0]
  have l: "2 ^ (bit_length n - 1) \<le> n" and h: "n < 2 ^ bit_length n" by simp_all
  have one: "(1::nat) < 2" by simp
  have "(2::nat) ^ b < 2 ^ bit_length n" using lo h by (rule le_less_trans)
  with one have 1: "b < bit_length n" by (rule power_less_imp_less_exp)
  have "(2::nat) ^ (bit_length n - 1) < 2 ^ Suc b" using l hi by (rule le_less_trans)
  with one have 2: "bit_length n - 1 < Suc b" by (rule power_less_imp_less_exp)
  from 1 2 show ?thesis by simp
qed

text \<open>
  What rounding does to a magnitude of \<open>2 ^ 53\<close> or more: it keeps the 53 leading bits
  \<open>q\<close> and drops the \<open>k\<close> others, or rounds \<open>q\<close> up when the dropped bits are not zero.
\<close>

lemma round_magnitude_shape:
  assumes "\<not> n < 2 ^ 53"
  shows "\<exists>k q r. 0 < k \<and> n = q * 2 ^ k + r \<and> r < 2 ^ k \<and> 2 ^ 52 \<le> q \<and> q < 2 ^ 53 \<and>
           (round_magnitude n = q * 2 ^ k \<or> (round_magnitude n = (q + 1) * 2 ^ k \<and> 0 < r))"
proof -
  define k where "k = bit_length n - 53"
  define q where "q = n div 2 ^ k"
  define r where "r = n mod 2 ^ k"
  have n0: "0 < n" using assms by (cases "n = 0") simp_all
  from bit_length_bounds [OF n0]
  have lo: "2 ^ (bit_length n - 1) \<le> n" and hi: "n < 2 ^ bit_length n" by simp_all
  have "(2::nat) ^ 53 < 2 ^ bit_length n" using assms hi by simp
  then have "53 < bit_length n" by (simp only: power_strict_increasing_iff)
  then have bl: "bit_length n = k + 53" and k0: "0 < k" by (simp_all add: k_def)
  have bl1: "bit_length n - 1 = k + 52" using bl by simp
  have lo': "2 ^ 52 * 2 ^ k \<le> n" using lo unfolding bl1 by (simp add: power_add mult.commute)
  have hi': "n < 2 ^ 53 * 2 ^ k" using hi unfolding bl by (simp add: power_add mult.commute)
  have n: "n = q * 2 ^ k + r" unfolding q_def r_def by (rule div_mult_mod_eq [symmetric])
  have r: "r < 2 ^ k" by (simp add: r_def)
  have q1: "2 ^ 52 \<le> q" unfolding q_def using lo' by (simp add: less_eq_div_iff_mult_less_eq)
  have q2: "q < 2 ^ 53" unfolding q_def using hi' by (simp add: less_mult_imp_div_less)
  have half: "(0::nat) < 2 ^ (k - 1)" by simp
  have "round_magnitude n = q * 2 ^ k \<or> (round_magnitude n = (q + 1) * 2 ^ k \<and> 0 < r)"
    using assms half
    by (auto simp add: round_magnitude_def Let_def k_def [symmetric] q_def [symmetric]
        r_def [symmetric] simp del: zero_less_power)
  with k0 n r q1 q2 show ?thesis by blast
qed

lemma round_magnitude_pos: "0 < n \<Longrightarrow> 0 < round_magnitude n"
proof (cases "n < 2 ^ 53")
  case True
  assume "0 < n"
  with True show ?thesis by (simp add: round_magnitude_def)
next
  case False
  from round_magnitude_shape [OF False] obtain k q and r :: nat where
    "2 ^ 52 \<le> q"
    "round_magnitude n = q * 2 ^ k \<or> (round_magnitude n = (q + 1) * 2 ^ k \<and> 0 < r)"
    by blast
  then show ?thesis by auto
qed

text \<open>Rounding never leaves the range of a format whose largest exponent is \<open>E\<close>.\<close>

lemma round_magnitude_le:
  assumes "n \<le> (2 ^ 53 - 1) * 2 ^ E"
  shows "round_magnitude n \<le> (2 ^ 53 - 1) * 2 ^ E"
proof (cases "n < 2 ^ 53")
  case True
  with assms show ?thesis by (simp add: round_magnitude_def)
next
  case False
  from round_magnitude_shape [OF False] obtain k q r where
    k0: "0 < k" and n: "n = q * 2 ^ k + r" and r: "r < 2 ^ k"
    and q1: "2 ^ 52 \<le> q" and q2: "q < 2 ^ 53"
    and rm: "round_magnitude n = q * 2 ^ k \<or> (round_magnitude n = (q + 1) * 2 ^ k \<and> 0 < r)"
    by blast
  from rm show ?thesis
  proof
    assume "round_magnitude n = q * 2 ^ k"
    then show ?thesis using n assms by simp
  next
    assume up: "round_magnitude n = (q + 1) * 2 ^ k \<and> 0 < r"
    have "2 ^ 52 * 2 ^ k \<le> q * 2 ^ k" using q1 by simp
    also have "\<dots> \<le> n" using n by simp
    also have "\<dots> \<le> (2 ^ 53 - 1) * 2 ^ E" by (rule assms)
    also have "\<dots> < 2 ^ 53 * 2 ^ E" by simp
    also have "\<dots> = 2 ^ 52 * 2 ^ Suc E" by simp
    finally have "(2::nat) ^ k < 2 ^ Suc E" by simp
    moreover have "(1::nat) < 2" by simp
    ultimately have "k < Suc E" by (rule power_less_imp_less_exp [rotated])
    then have kE: "k \<le> E" by simp
    show ?thesis
    proof (cases "k = E")
      case True
      have "q * 2 ^ k < n" using n up by simp
      also have "\<dots> \<le> (2 ^ 53 - 1) * 2 ^ k" using assms True by simp
      finally have "q < 2 ^ 53 - 1" by simp
      then have "q + 1 \<le> 2 ^ 53 - 1" by simp
      then have "(q + 1) * 2 ^ k \<le> (2 ^ 53 - 1) * 2 ^ k" by (rule mult_le_mono1)
      then show ?thesis using up True by simp
    next
      case False
      with kE have "Suc k \<le> E" by simp
      then have p: "(2::nat) ^ Suc k \<le> 2 ^ E" by (rule power_increasing) simp
      have "(q + 1) * 2 ^ k \<le> 2 ^ 53 * 2 ^ k" using q2 by simp
      also have "\<dots> = 2 ^ 52 * 2 ^ Suc k" by simp
      also have "\<dots> \<le> 2 ^ 52 * 2 ^ E" using p by (rule mult_le_mono2)
      also have "\<dots> \<le> (2 ^ 53 - 1) * 2 ^ E" by simp
      finally show ?thesis using up by simp
    qed
  qed
qed

lemma round_magnitude_in_range: "n \<le> max_magnitude \<Longrightarrow> round_magnitude n \<le> max_magnitude"
  unfolding max_magnitude_def by (rule round_magnitude_le)

text \<open>A magnitude less than half a unit in the last place above \<open>q * 2 ^ k\<close> rounds down to it.\<close>

lemma round_magnitude_down:
  assumes "2 ^ 52 \<le> q" "q < 2 ^ 53" "2 * r < 2 ^ k"
  shows "round_magnitude (q * 2 ^ k + r) = q * 2 ^ k"
proof (cases k)
  case 0
  with assms show ?thesis by (simp add: round_magnitude_def)
next
  case (Suc j)
  define n where "n = q * 2 ^ k + r"
  have r: "r < 2 ^ (k - 1)" "r < 2 ^ k" using assms(3) Suc by simp_all
  have "2 ^ 52 * 2 ^ k \<le> q * 2 ^ k" using assms(1) by (rule mult_le_mono1)
  then have "2 ^ 52 * 2 ^ k \<le> n" unfolding n_def by (rule trans_le_add1)
  then have lo: "2 ^ (52 + k) \<le> n" by (simp only: power_add)
  have "q + 1 \<le> 2 ^ 53" using assms(2) by simp
  then have le: "(q + 1) * 2 ^ k \<le> 2 ^ 53 * 2 ^ k" by (rule mult_le_mono1)
  have "n < q * 2 ^ k + 2 ^ k" unfolding n_def using r(2) by simp
  also have "\<dots> = (q + 1) * 2 ^ k" by simp
  also note le
  also have "(2::nat) ^ 53 * 2 ^ k = 2 ^ Suc (52 + k)" by (simp add: power_add)
  finally have hi: "n < 2 ^ Suc (52 + k)" .
  have bl: "bit_length n = Suc (52 + k)" using lo hi by (rule bit_length_eq)
  have "(2::nat) ^ 53 \<le> 2 ^ (52 + k)" using Suc by (intro power_increasing) simp_all
  then have big: "\<not> n < 2 ^ 53" using lo by simp
  have d: "n div 2 ^ k = q" and m: "n mod 2 ^ k = r" using r(2) by (simp_all add: n_def)
  have "round_magnitude n = q * 2 ^ k"
    using big r(1) by (simp add: round_magnitude_def bl d m Let_def)
  then show ?thesis by (simp add: n_def)
qed

text \<open>Ties go to the even neighbour: down from \<open>2 ^ 53 + 1\<close>, up from \<open>2 ^ 53 + 3\<close>.\<close>

lemma round_magnitude_ties:
  "round_magnitude (2 ^ 53 + 1) = 2 ^ 53"
  "round_magnitude (2 ^ 53 + 3) = 2 ^ 53 + 4"
proof -
  have 1: "bit_length 9007199254740993 = Suc 53" by (rule bit_length_eq) simp_all
  have 3: "bit_length 9007199254740995 = Suc 53" by (rule bit_length_eq) simp_all
  show "round_magnitude (2 ^ 53 + 1) = 2 ^ 53"
    by (simp add: round_magnitude_def 1 Let_def)
  show "round_magnitude (2 ^ 53 + 3) = 2 ^ 53 + 4"
    by (simp add: round_magnitude_def 3 Let_def)
qed

text \<open>
  \<open>1250.75 + 2 ^ 1023\<close> rounds to \<open>2 ^ 1023\<close> (a unit in the last place of \<open>2 ^ 1023\<close> is
  \<open>2 ^ 971\<close>), and \<open>2 ^ 1023 + 2 ^ 1023 = 2 ^ 1024\<close> overflows.
\<close>

lemma fadd_1250_75_huge:
  "fadd (Finite False (5003 * 2 ^ 1072)) (Finite False (2 ^ 2097)) = Finite False (2 ^ 2097)"
proof -
  have "round_magnitude (2 ^ 52 * 2 ^ 2045 + 5003 * 2 ^ 1072) = 2 ^ 52 * 2 ^ 2045"
    by (rule round_magnitude_down) simp_all
  moreover have "(2::nat) ^ 52 * 2 ^ 2045 + 5003 * 2 ^ 1072 = 5003 * 2 ^ 1072 + 2 ^ 2097"
    by simp
  moreover have "(2::nat) ^ 52 * 2 ^ 2045 = 2 ^ 2097" by simp
  ultimately have "round_magnitude (5003 * 2 ^ 1072 + 2 ^ 2097) = 2 ^ 2097" by simp
  then show ?thesis
    by (simp add: signed_def round_finite_def max_magnitude_def Let_def nat_add_distrib
        nat_mult_distrib nat_power_eq)
qed

lemma fadd_huge_huge:
  "fadd (Finite False (2 ^ 2097)) (Finite False (2 ^ 2097)) = Infinity False"
proof -
  have "round_magnitude (2 ^ 52 * 2 ^ 2046 + 0) = 2 ^ 52 * 2 ^ 2046"
    by (rule round_magnitude_down) simp_all
  moreover have "(2::nat) ^ 52 * 2 ^ 2046 + 0 = 2 ^ 2097 + 2 ^ 2097" by simp
  moreover have "(2::nat) ^ 52 * 2 ^ 2046 = 2 ^ 2098" by simp
  ultimately have "round_magnitude (2 ^ 2097 + 2 ^ 2097) = 2 ^ 2098" by simp
  then show ?thesis
    by (simp add: signed_def round_finite_def max_magnitude_def Let_def nat_add_distrib
        nat_power_eq)
qed

text \<open>\<open>-150.25 + 100 = -50.25\<close>, exactly: \<open>201 / 4\<close> has eight significant bits.\<close>

lemma fadd_minus_150_25_hundred:
  "fadd (Finite True (601 * 2 ^ 1072)) (float_of_nat 100) = Finite True (201 * 2 ^ 1072)"
proof -
  have "round_magnitude (201 * 2 ^ 45 * 2 ^ 1027 + 0) = 201 * 2 ^ 45 * 2 ^ 1027"
    by (rule round_magnitude_down) simp_all
  moreover have "(201 * 2 ^ 45 * 2 ^ 1027 + 0 :: nat) = 201 * 2 ^ 1072" by simp
  ultimately have "round_magnitude (201 * 2 ^ 1072) = 201 * 2 ^ 1072" by simp
  then show ?thesis
    by (simp add: float_of_nat_def signed_def round_finite_def max_magnitude_def Let_def)
qed

text \<open>\<open>-150.25 + 5 = -145.25\<close>, exactly.\<close>

lemma fadd_minus_150_25_five:
  "fadd (Finite True (601 * 2 ^ 1072)) (float_of_nat 5) = Finite True (581 * 2 ^ 1072)"
proof -
  have "round_magnitude (581 * 2 ^ 43 * 2 ^ 1029 + 0) = 581 * 2 ^ 43 * 2 ^ 1029"
    by (rule round_magnitude_down) simp_all
  moreover have "(581 * 2 ^ 43 * 2 ^ 1029 + 0 :: nat) = 581 * 2 ^ 1072" by simp
  ultimately have "round_magnitude (581 * 2 ^ 1072) = 581 * 2 ^ 1072" by simp
  then show ?thesis
    by (simp add: float_of_nat_def signed_def round_finite_def max_magnitude_def Let_def)
qed

lemma float_lt_not_le: "float_lt fzero b \<Longrightarrow> \<not> float_le b fzero"
  by (cases b) (auto simp add: fzero_def signed_def split: if_splits)

text \<open>
  Subtracting a larger finite value from a positive one gives a finite negative value: the
  exact difference is not zero and is smaller in magnitude than the value subtracted.
\<close>

lemma fsub_below:
  assumes "float_lt fzero b" "float_lt b a" "in_range a"
  shows "\<exists>m. 0 < m \<and> m \<le> max_magnitude \<and> fsub b a = Finite True m"
proof -
  from assms(3) obtain sa ma where a: "a = Finite sa ma" and ma: "ma \<le> max_magnitude"
    by (cases a) simp_all
  from assms(1,2) a obtain sb mb where b: "b = Finite sb mb"
    by (cases b) (simp_all add: fzero_def)
  from assms(1) b have sb: "\<not> sb" and mb: "0 < mb"
    by (auto simp add: fzero_def signed_def split: if_splits)
  from assms(2) a b sb have sa: "\<not> sa" and lt: "mb < ma"
    by (auto simp add: signed_def split: if_splits)
  define n where "n = ma - mb"
  have n: "0 < n" "n \<le> max_magnitude" using lt ma by (simp_all add: n_def)
  have v: "int mb - int ma < 0" "nat \<bar>int mb - int ma\<bar> = n" using lt by (simp_all add: n_def)
  have "fsub b a = round_finite True n"
    using v sa sb by (simp add: a b fsub_def signed_def Let_def)
  also have "\<dots> = Finite True (round_magnitude n)"
    using round_magnitude_in_range [OF n(2)] by (simp add: round_finite_def Let_def)
  finally show ?thesis
    using round_magnitude_pos [OF n(1)] round_magnitude_in_range [OF n(2)] by simp
qed

text \<open>The initial balances denote \<open>1250.75\<close> and \<open>-150.25\<close>.\<close>

lemma valof_initial_balances:
  "valof (Finite False (5003 * 2 ^ 1072)) = Some 1250.75"
  "valof (Finite True (601 * 2 ^ 1072)) = Some (- 150.25)"
  by (simp_all add: signed_def)

section \<open>Properties of the string functions\<close>

lemma Split_no_slash: "CHR ''/'' \<notin> set s \<Longrightarrow> Split s = [s]"
  by (induction s) auto

lemma Split_segment: "CHR ''/'' \<notin> set s \<Longrightarrow> Split (s @ CHR ''/'' # t) = s # Split t"
  by (induction s) auto

lemma Split_deposit_path:
  assumes "CHR ''/'' \<notin> set i"
  shows "Split (''/accounts/'' @ i @ ''/deposit'') = ['''', ''accounts'', i, ''deposit'']"
proof -
  have "Split (i @ CHR ''/'' # ''deposit'') = [i, ''deposit'']"
    using assms by (simp add: Split_segment Split_no_slash del: Split.simps)
  then show ?thesis by simp
qed

lemma Split_withdraw_path:
  assumes "CHR ''/'' \<notin> set i"
  shows "Split (''/accounts/'' @ i @ ''/withdraw'') = ['''', ''accounts'', i, ''withdraw'']"
proof -
  have "Split (i @ CHR ''/'' # ''withdraw'') = [i, ''withdraw'']"
    using assms by (simp add: Split_segment Split_no_slash del: Split.simps)
  then show ?thesis by simp
qed

lemma HasSuffix_append: "HasSuffix (s @ t) t"
  by (simp add: HasSuffix_def)

lemma HasSuffix_last: "HasSuffix s t \<Longrightarrow> t \<noteq> [] \<Longrightarrow> s \<noteq> [] \<and> last s = last t"
  unfolding HasSuffix_def
  by (metis append_take_drop_id last_appendR list.size(3) le_zero_eq length_0_conv)

lemma withdraw_path_not_deposit: "\<not> HasSuffix (p @ ''/withdraw'') ''/deposit''"
  using HasSuffix_last [of "p @ ''/withdraw''" "''/deposit''"] by auto

lemma TrimPrefix_append: "TrimPrefix (p @ s) p = s"
  by (simp add: TrimPrefix_def HasPrefix_def)

text \<open>\<open>Join\<close> undoes \<open>Split\<close>, and a path without empty, \<open>.\<close> and \<open>..\<close> elements is clean.\<close>

lemma Split_not_Nil: "Split s \<noteq> []"
  by (induction s) (auto split: list.splits)

lemma Join_Cons_Cons: "Join ((c # p) # ps) = c # Join (p # ps)"
  by (cases ps) simp_all

lemma Join_Nil_Cons: "ps \<noteq> [] \<Longrightarrow> Join ([] # ps) = CHR ''/'' # Join ps"
  by (cases ps) simp_all

lemma Join_Split: "Join (Split s) = s"
proof (induction s)
  case Nil
  show ?case by simp
next
  case (Cons c cs)
  obtain p ps where sp: "Split cs = p # ps"
    using Split_not_Nil [of cs] by (cases "Split cs") auto
  show ?case
  proof (cases "c = CHR ''/''")
    case True
    then show ?thesis using Cons.IH Split_not_Nil [of cs] by (simp add: Join_Nil_Cons)
  next
    case False
    then show ?thesis using Cons.IH sp by (simp add: Join_Cons_Cons)
  qed
qed

lemma Split_trailing_slash: "Split (s @ ''/'') = Split s @ [[]]"
proof (induction s)
  case Nil
  show ?case by simp
next
  case (Cons c cs)
  obtain p ps where sp: "Split cs = p # ps"
    using Split_not_Nil [of cs] by (cases "Split cs") auto
  show ?case using Cons.IH sp by simp
qed

lemma cleanElements_plain:
  "\<forall>e \<in> set es. e \<noteq> [] \<and> e \<noteq> ''.'' \<and> e \<noteq> ''..'' \<Longrightarrow> cleanElements out es = rev out @ es"
  by (induction es arbitrary: out) simp_all

lemma plain_not_trailing:
  assumes "\<forall>e \<in> set (Split i). e \<noteq> []"
  shows "i \<noteq> [] \<and> last i \<noteq> CHR ''/''"
proof -
  have n: "i \<noteq> []" using assms by auto
  have "last i \<noteq> CHR ''/''"
  proof
    assume "last i = CHR ''/''"
    with n have "i = butlast i @ ''/''" by (metis append_butlast_last_id)
    then have "Split i = Split (butlast i) @ [[]]" by (metis Split_trailing_slash)
    then have "[] \<in> set (Split i)" by simp
    with assms show False by blast
  qed
  with n show ?thesis by simp
qed

lemma Clean_accounts:
  assumes "\<forall>e \<in> set (Split i). e \<noteq> [] \<and> e \<noteq> ''.'' \<and> e \<noteq> ''..''"
  shows "Clean (''/accounts/'' @ i) = ''/accounts/'' @ i"
proof -
  have "Split (''accounts'' @ CHR ''/'' # i) = ''accounts'' # Split i"
    by (rule Split_segment) simp
  then have s: "Split (''/accounts/'' @ i) = [] # ''accounts'' # Split i" by simp
  obtain p ps where sp: "Split i = p # ps"
    using Split_not_Nil [of i] by (cases "Split i") auto
  have "cleanElements [] ([] # ''accounts'' # Split i) = ''accounts'' # Split i"
    using assms by (simp add: cleanElements_plain)
  moreover have "Join (''accounts'' # Split i) = ''accounts/'' @ Join (Split i)"
    by (simp add: sp)
  ultimately show ?thesis unfolding Clean_def s by (simp add: Join_Split)
qed

lemma cleanPath_accounts:
  assumes "\<forall>e \<in> set (Split i). e \<noteq> [] \<and> e \<noteq> ''.'' \<and> e \<noteq> ''..''"
  shows "cleanPath (''/accounts/'' @ i) = ''/accounts/'' @ i"
proof -
  have "i \<noteq> [] \<and> last i \<noteq> CHR ''/''" using assms by (intro plain_not_trailing) blast
  then have l: "last (''/accounts/'' @ i) \<noteq> CHR ''/''" by simp
  have c: "Clean (''/accounts/'' @ i) = ''/accounts/'' @ i" by (rule Clean_accounts [OF assms])
  show ?thesis using l c by (simp add: cleanPath_def Let_def)
qed

text \<open>What cleaning does to some paths.\<close>

lemma cleanPath_examples:
  "cleanPath ''/accounts/acc-123'' = ''/accounts/acc-123''"
  "cleanPath ''/accounts/acc-123/deposit'' = ''/accounts/acc-123/deposit''"
  "cleanPath ''/accounts/'' = ''/accounts/''"
  "cleanPath ''/accounts/..'' = ''/''"
  "cleanPath ''/accounts/.'' = ''/accounts''"
  "cleanPath ''/accounts//acc-123'' = ''/accounts/acc-123''"
  "cleanPath ''/accounts/a/../b/'' = ''/accounts/b/''"
  "cleanPath ''accounts'' = ''/accounts''"
  by (simp_all add: cleanPath_def Clean_def)

text \<open>
  The paths of the three routes are clean when the id is a path element other than \<open>.\<close>
  and \<open>..\<close>.
\<close>

lemma cleanPath_account_paths:
  assumes "CHR ''/'' \<notin> set i" "i \<noteq> []" "i \<noteq> ''.''" "i \<noteq> ''..''"
  shows "cleanPath (''/accounts/'' @ i) = ''/accounts/'' @ i"
    and "cleanPath (''/accounts/'' @ i @ ''/deposit'') = ''/accounts/'' @ i @ ''/deposit''"
    and "cleanPath (''/accounts/'' @ i @ ''/withdraw'') = ''/accounts/'' @ i @ ''/withdraw''"
proof -
  have 1: "Split i = [i]" using assms(1) by (rule Split_no_slash)
  have 2: "Split (i @ ''/deposit'') = [i, ''deposit'']"
    using assms(1) by (simp add: Split_segment Split_no_slash del: Split.simps)
  have 3: "Split (i @ ''/withdraw'') = [i, ''withdraw'']"
    using assms(1) by (simp add: Split_segment Split_no_slash del: Split.simps)
  show "cleanPath (''/accounts/'' @ i) = ''/accounts/'' @ i"
    by (rule cleanPath_accounts) (simp add: 1 assms)
  show "cleanPath (''/accounts/'' @ i @ ''/deposit'') = ''/accounts/'' @ i @ ''/deposit''"
    by (rule cleanPath_accounts) (simp add: 2 assms)
  show "cleanPath (''/accounts/'' @ i @ ''/withdraw'') = ''/accounts/'' @ i @ ''/withdraw''"
    by (rule cleanPath_accounts) (simp add: 3 assms)
qed

section \<open>Properties of the handlers\<close>

lemma addHATEOASLinks_links:
  "Links (addHATEOASLinks a b) ''self'' =
     Some \<lparr>Href = b @ ''/accounts/'' @ AccountID a, Method = ''GET'', Rel = ''self''\<rparr>"
  "Links (addHATEOASLinks a b) ''deposit'' =
     Some \<lparr>Href = b @ ''/accounts/'' @ AccountID a @ ''/deposit'', Method = ''POST'',
           Rel = ''deposit''\<rparr>"
  "Links (addHATEOASLinks a b) ''withdraw'' =
     (if float_lt fzero (Balance a)
      then Some \<lparr>Href = b @ ''/accounts/'' @ AccountID a @ ''/withdraw'', Method = ''POST'',
                 Rel = ''withdraw''\<rparr>
      else None)"
  by (simp_all add: addHATEOASLinks_def Let_def)

lemma addHATEOASLinks_dom:
  "dom (Links (addHATEOASLinks a b)) =
     (if float_lt fzero (Balance a) then {''self'', ''deposit'', ''withdraw''}
      else {''self'', ''deposit''})"
  by (auto simp add: addHATEOASLinks_def Let_def)

lemma addHATEOASLinks_fields:
  "AccountID (addHATEOASLinks a b) = AccountID a"
  "AccountHolder (addHATEOASLinks a b) = AccountHolder a"
  "Balance (addHATEOASLinks a b) = Balance a"
  "Currency (addHATEOASLinks a b) = Currency a"
  by (simp_all add: addHATEOASLinks_def Let_def)

lemma respond_fields: "Written (respond c p) = p" "Status (respond c p) = c"
  by (simp_all add: respond_def)

lemma Status_respondAccount: "Status (respondAccount a r) = 200"
  by (simp add: respondAccount_def Let_def)

lemma Written_respondAccount:
  "Written (respondAccount a r) = Encode (addHATEOASLinks a (''http://'' @ Host r))"
  by (simp add: respondAccount_def Let_def)

text \<open>Every representation that a handler writes comes out of \<open>addHATEOASLinks\<close>.\<close>

lemma respondAccount_Written:
  "Written (respondAccount a r) = AccountJSON a' \<Longrightarrow> \<exists>a0 b. a' = addHATEOASLinks a0 b"
  by (auto simp add: respondAccount_def Encode_def Let_def split: if_splits)

lemma getAccount_Written:
  "Written (fst (getAccount r accts)) = AccountJSON a' \<Longrightarrow> \<exists>a b. a' = addHATEOASLinks a b"
  by (auto simp add: getAccount_def Let_def respond_fields split: if_splits option.splits
      dest: respondAccount_Written)

lemma deposit_Written:
  "Written (fst (deposit r accts)) = AccountJSON a' \<Longrightarrow> \<exists>a b. a' = addHATEOASLinks a b"
  by (auto simp add: deposit_def Let_def respond_fields split: if_splits option.splits
      dest: respondAccount_Written)

lemma withdraw_Written:
  "Written (fst (withdraw r accts)) = AccountJSON a' \<Longrightarrow> \<exists>a b. a' = addHATEOASLinks a b"
  by (auto simp add: withdraw_def Let_def respond_fields split: if_splits option.splits
      dest: respondAccount_Written)

lemma handler_Written:
  "Written (fst (handler r accts)) = AccountJSON a' \<Longrightarrow> \<exists>a b. a' = addHATEOASLinks a b"
  by (auto simp add: handler_def Let_def split: if_splits
      dest: getAccount_Written deposit_Written withdraw_Written)

text \<open>Which handler a path reaches.\<close>

lemma handler_deposit:
  "URLPath r = p @ ''/deposit'' \<Longrightarrow> handler r accts = deposit r accts"
  by (simp add: handler_def HasSuffix_append)

lemma handler_withdraw:
  "URLPath r = p @ ''/withdraw'' \<Longrightarrow> handler r accts = withdraw r accts"
  by (simp add: handler_def HasSuffix_append withdraw_path_not_deposit)

lemma handler_getAccount:
  "\<not> HasSuffix (URLPath r) ''/deposit'' \<Longrightarrow> \<not> HasSuffix (URLPath r) ''/withdraw'' \<Longrightarrow>
   handler r accts = getAccount r accts"
  by (simp add: handler_def)

lemma handler_withdraw_at:
  assumes "URLPath r = ''/accounts/'' @ i @ ''/withdraw''"
  shows "handler r accts = withdraw r accts"
  using handler_withdraw [of r "''/accounts/'' @ i"] assms by simp

lemma handler_deposit_at:
  assumes "URLPath r = ''/accounts/'' @ i @ ''/deposit''"
  shows "handler r accts = deposit r accts"
  using handler_deposit [of r "''/accounts/'' @ i"] assms by simp

text \<open>The two POST handlers on a request for an account that exists.\<close>

lemma withdraw_at:
  assumes "CHR ''/'' \<notin> set i" "accts i = Some acc" "ReqMethod r = ''POST''"
    and "URLPath r = ''/accounts/'' @ i @ ''/withdraw''"
  shows "withdraw r accts =
     (if float_le (Balance acc) fzero
      then (respond 403 (ErrorJSON ''Withdrawal not allowed with negative balance''), accts)
      else (case Body r of
              None \<Rightarrow> (respond 400 NoBody, accts)
            | Some t \<Rightarrow>
                if float_le (Amount t) fzero
                then (respond 400 (ErrorJSON ''Amount must be positive''), accts)
                else (respondAccount (acc\<lparr>Balance := fsub (Balance acc) (Amount t)\<rparr>) r,
                      accts(i \<mapsto> acc\<lparr>Balance := fsub (Balance acc) (Amount t)\<rparr>))))"
proof -
  have s: "Split (URLPath r) = ['''', ''accounts'', i, ''withdraw'']"
    unfolding assms(4) by (rule Split_withdraw_path [OF assms(1)])
  show ?thesis using assms(2,3) by (simp add: withdraw_def s Let_def split: option.splits)
qed

lemma deposit_at:
  assumes "CHR ''/'' \<notin> set i" "accts i = Some acc" "ReqMethod r = ''POST''"
    and "URLPath r = ''/accounts/'' @ i @ ''/deposit''"
  shows "deposit r accts =
     (case Body r of
        None \<Rightarrow> (respond 400 NoBody, accts)
      | Some t \<Rightarrow>
          if float_le (Amount t) fzero
          then (respond 400 (ErrorJSON ''Amount must be positive''), accts)
          else (respondAccount (acc\<lparr>Balance := fadd (Balance acc) (Amount t)\<rparr>) r,
                accts(i \<mapsto> acc\<lparr>Balance := fadd (Balance acc) (Amount t)\<rparr>)))"
proof -
  have s: "Split (URLPath r) = ['''', ''accounts'', i, ''deposit'']"
    unfolding assms(4) by (rule Split_deposit_path [OF assms(1)])
  show ?thesis using assms(2,3) by (simp add: deposit_def s Let_def split: option.splits)
qed

text \<open>
  The mux: a request other than CONNECT with a clean path under \<open>/accounts/\<close> reaches the
  handler, and one whose path is not clean is answered with a redirect and changes nothing.
\<close>

lemma mux_passes:
  assumes "ReqMethod r \<noteq> ''CONNECT''" "cleanPath (URLPath r) = URLPath r"
    and "URLPath r = ''/accounts/'' @ i"
  shows "DefaultServeMux r accts = (Handled (fst (handler r accts)), snd (handler r accts))"
proof -
  have p: "HasPrefix (URLPath r) ''/accounts/''" "URLPath r \<noteq> ''/accounts''"
    unfolding assms(3) by (simp_all add: HasPrefix_def)
  show ?thesis
    using assms(1,2) p by (simp add: DefaultServeMux_def Let_def split: prod.splits)
qed

lemma mux_redirects:
  assumes "ReqMethod r \<noteq> ''CONNECT''" "cleanPath (URLPath r) \<noteq> URLPath r"
  shows "\<exists>p. DefaultServeMux r accts = (Redirect p, accts)"
  using assms by (simp add: DefaultServeMux_def Let_def)

lemma handler_get_suffix:
  assumes "ReqMethod r = ''GET''"
    and "HasSuffix (URLPath r) ''/deposit'' \<or> HasSuffix (URLPath r) ''/withdraw''"
  shows "handler r accts = (respond 405 NoBody, accts)"
  using assms by (auto simp add: handler_def Let_def deposit_def withdraw_def)

lemma handler_get_absent:
  assumes "ReqMethod r = ''GET''" "URLPath r = ''/accounts/'' @ i"
    and "\<not> HasSuffix (URLPath r) ''/deposit''" "\<not> HasSuffix (URLPath r) ''/withdraw''"
    and "accts i = None"
  shows "handler r accts = (respond 404 NoBody, accts)"
proof -
  have t: "TrimPrefix (URLPath r) ''/accounts/'' = i"
    unfolding assms(2) by (rule TrimPrefix_append)
  show ?thesis
    unfolding handler_getAccount [OF assms(3,4)]
    using assms(1,5) by (simp add: getAccount_def t Let_def)
qed

lemma handler_get_present:
  assumes "ReqMethod r = ''GET''" "URLPath r = ''/accounts/'' @ i"
    and "\<not> HasSuffix (URLPath r) ''/deposit''" "\<not> HasSuffix (URLPath r) ''/withdraw''"
    and "accts i = Some acc"
  shows "handler r accts = (respondAccount acc r, accts)"
proof -
  have t: "TrimPrefix (URLPath r) ''/accounts/'' = i"
    unfolding assms(2) by (rule TrimPrefix_append)
  show ?thesis
    unfolding handler_getAccount [OF assms(3,4)]
    using assms(1,5) by (simp add: getAccount_def t Let_def)
qed

lemma mux_passes_account_paths:
  assumes "ReqMethod r \<noteq> ''CONNECT''"
    and "CHR ''/'' \<notin> set i" "i \<noteq> []" "i \<noteq> ''.''" "i \<noteq> ''..''"
    and "URLPath r = ''/accounts/'' @ i \<or> URLPath r = ''/accounts/'' @ i @ ''/deposit'' \<or>
         URLPath r = ''/accounts/'' @ i @ ''/withdraw''"
  shows "DefaultServeMux r accts = (Handled (fst (handler r accts)), snd (handler r accts))"
proof -
  note c = cleanPath_account_paths [OF assms(2-5)]
  from assms(6) show ?thesis
  proof (elim disjE)
    assume p: "URLPath r = ''/accounts/'' @ i"
    show ?thesis by (rule mux_passes [OF assms(1) _ p]) (simp only: p c)
  next
    assume p: "URLPath r = ''/accounts/'' @ i @ ''/deposit''"
    show ?thesis by (rule mux_passes [OF assms(1) _ p]) (simp only: p c)
  next
    assume p: "URLPath r = ''/accounts/'' @ i @ ''/withdraw''"
    show ?thesis by (rule mux_passes [OF assms(1) _ p]) (simp only: p c)
  qed
qed

text \<open>The sample requests have clean paths, so the mux passes them to the handler.\<close>

lemma sample_requests_reach_handler:
  "DefaultServeMux huge_deposit accts =
     (Handled (fst (handler huge_deposit accts)), snd (handler huge_deposit accts))"
  "DefaultServeMux unit_withdrawal accts =
     (Handled (fst (handler unit_withdrawal accts)), snd (handler unit_withdrawal accts))"
proof -
  have i: "CHR ''/'' \<notin> set ''acc-123''" "''acc-123'' \<noteq> []" "''acc-123'' \<noteq> ''.''"
    "''acc-123'' \<noteq> ''..''"
    by simp_all
  have d: "ReqMethod huge_deposit \<noteq> ''CONNECT''"
    "URLPath huge_deposit = ''/accounts/'' @ ''acc-123'' \<or>
     URLPath huge_deposit = ''/accounts/'' @ ''acc-123'' @ ''/deposit'' \<or>
     URLPath huge_deposit = ''/accounts/'' @ ''acc-123'' @ ''/withdraw''"
    by (simp_all add: huge_deposit_def request_def)
  have w: "ReqMethod unit_withdrawal \<noteq> ''CONNECT''"
    "URLPath unit_withdrawal = ''/accounts/'' @ ''acc-123'' \<or>
     URLPath unit_withdrawal = ''/accounts/'' @ ''acc-123'' @ ''/deposit'' \<or>
     URLPath unit_withdrawal = ''/accounts/'' @ ''acc-123'' @ ''/withdraw''"
    by (simp_all add: unit_withdrawal_def request_def)
  show "DefaultServeMux huge_deposit accts =
     (Handled (fst (handler huge_deposit accts)), snd (handler huge_deposit accts))"
    by (rule mux_passes_account_paths [OF d(1) i d(2)])
  show "DefaultServeMux unit_withdrawal accts =
     (Handled (fst (handler unit_withdrawal accts)), snd (handler unit_withdrawal accts))"
    by (rule mux_passes_account_paths [OF w(1) i w(2)])
qed

section \<open>The claims\<close>

text \<open>
  C1. Every account representation that a handler writes (getAccount, deposit or withdraw,
  reached through the registered handler) has in its \<open>_links\<close> map an entry \<open>self\<close> with
  method GET and an entry \<open>deposit\<close> with method POST, and has an entry \<open>withdraw\<close> (with
  method POST) if and only if the balance of the representation is greater than 0.
\<close>

theorem links_of_every_representation:
  assumes "Written (fst (handler r accts)) = AccountJSON a"
  shows "(\<exists>l. Links a ''self'' = Some l \<and> Method l = ''GET'') \<and>
         (\<exists>l. Links a ''deposit'' = Some l \<and> Method l = ''POST'') \<and>
         ((\<exists>l. Links a ''withdraw'' = Some l \<and> Method l = ''POST'') \<longleftrightarrow>
            float_lt fzero (Balance a)) \<and>
         (Links a ''withdraw'' \<noteq> None \<longleftrightarrow> float_lt fzero (Balance a))"
proof -
  obtain a0 b where a: "a = addHATEOASLinks a0 b"
    using handler_Written [OF assms] by blast
  show ?thesis
    unfolding a by (simp add: addHATEOASLinks_links addHATEOASLinks_fields)
qed

theorem links_of_every_representation_witness:
  "\<exists>a. Written (fst (handler (request ''GET'' ''/accounts/acc-456'' None) accounts)) =
          AccountJSON a \<and>
       (\<exists>l. Links a ''self'' = Some l \<and> Method l = ''GET'') \<and>
       (\<exists>l. Links a ''deposit'' = Some l \<and> Method l = ''POST'') \<and>
       Links a ''withdraw'' = None \<and> \<not> float_lt fzero (Balance a)"
proof -
  define a where
    "a = addHATEOASLinks (the (accounts ''acc-456'')) ''http://localhost:9001''"
  have h: "Written (fst (handler (request ''GET'' ''/accounts/acc-456'' None) accounts)) =
      AccountJSON a"
    by (simp add: a_def request_def handler_def HasSuffix_def getAccount_def TrimPrefix_def
        HasPrefix_def accounts_def respondAccount_def Encode_def Let_def
        addHATEOASLinks_fields)
  have b: "\<not> float_lt fzero (Balance a)"
    by (simp add: a_def addHATEOASLinks_fields accounts_def fzero_def signed_def)
  from links_of_every_representation [OF h] b h show ?thesis by auto
qed

text \<open>
  C2. For a POST request to \<open>/accounts/{id}/withdraw\<close> whose id (a path segment, so without
  a slash) is in the store, the status is 403 if and only if the balance of that account is
  \<open>\<le> 0\<close>, and a response with status 403 leaves the whole store as it was.
\<close>

theorem withdraw_forbidden_iff:
  assumes "CHR ''/'' \<notin> set i" "accts i = Some acc" "ReqMethod r = ''POST''"
    and "URLPath r = ''/accounts/'' @ i @ ''/withdraw''"
  shows "(Status (fst (handler r accts)) = 403 \<longleftrightarrow> float_le (Balance acc) fzero) \<and>
         (Status (fst (handler r accts)) = 403 \<longrightarrow> snd (handler r accts) = accts)"
  unfolding handler_withdraw_at [OF assms(4)]
    withdraw_at [where accts = accts and i = i, OF assms]
  by (simp add: respond_fields Status_respondAccount split: option.splits)

theorem withdraw_forbidden_iff_witness:
  "accounts ''acc-456'' \<noteq> None \<and>
   Status (fst (handler (request ''POST'' ''/accounts/acc-456/withdraw''
                           (Some \<lparr>Amount = float_of_nat 100\<rparr>)) accounts)) = 403 \<and>
   snd (handler (request ''POST'' ''/accounts/acc-456/withdraw''
                   (Some \<lparr>Amount = float_of_nat 100\<rparr>)) accounts) = accounts"
proof -
  define r where
    "r = request ''POST'' ''/accounts/acc-456/withdraw'' (Some \<lparr>Amount = float_of_nat 100\<rparr>)"
  define acc where "acc = the (accounts ''acc-456'')"
  have 1: "CHR ''/'' \<notin> set ''acc-456''" by simp
  have 2: "accounts ''acc-456'' = Some acc" by (simp add: acc_def accounts_def)
  have 3: "ReqMethod r = ''POST''" by (simp add: r_def request_def)
  have 4: "URLPath r = ''/accounts/'' @ ''acc-456'' @ ''/withdraw''"
    by (simp add: r_def request_def)
  have 5: "float_le (Balance acc) fzero"
    by (simp add: acc_def accounts_def fzero_def signed_def)
  from withdraw_forbidden_iff [where accts = accounts and i = "''acc-456''", OF 1 2 3 4] 5 2
  show ?thesis
    unfolding r_def by simp
qed

text \<open>
  A deposit of an amount greater than 0 into an account that exists: the stored balance
  becomes the float64 sum, and the representation is written when that sum is finite.
\<close>

lemma deposit_success:
  assumes "CHR ''/'' \<notin> set i" "accts i = Some acc" "ReqMethod r = ''POST''"
    and "URLPath r = ''/accounts/'' @ i @ ''/deposit''"
    and "Body r = Some t" "float_lt fzero (Amount t)"
  shows "handler r accts =
     (respondAccount (acc\<lparr>Balance := fadd (Balance acc) (Amount t)\<rparr>) r,
      accts(i \<mapsto> acc\<lparr>Balance := fadd (Balance acc) (Amount t)\<rparr>))"
  unfolding handler_deposit_at [OF assms(4)]
    deposit_at [where accts = accts and i = i, OF assms(1-4)]
  using float_lt_not_le [OF assms(6)] by (simp add: assms(5))

lemma deposit_returns_representation:
  assumes "CHR ''/'' \<notin> set i" "accts i = Some acc" "ReqMethod r = ''POST''"
    and "URLPath r = ''/accounts/'' @ i @ ''/deposit''"
    and "Body r = Some t" "float_lt fzero (Amount t)"
    and "is_finite (fadd (Balance acc) (Amount t))"
  shows "Status (fst (handler r accts)) = 200 \<and>
         Written (fst (handler r accts)) =
           AccountJSON (addHATEOASLinks (acc\<lparr>Balance := fadd (Balance acc) (Amount t)\<rparr>)
                          (''http://'' @ Host r)) \<and>
         snd (handler r accts) i = Some (acc\<lparr>Balance := fadd (Balance acc) (Amount t)\<rparr>)"
  unfolding deposit_success [where accts = accts and i = i, OF assms(1-6)]
  using assms(7)
  by (simp add: Status_respondAccount Written_respondAccount Encode_def addHATEOASLinks_fields)

text \<open>The two deposits of \<open>2 ^ 1023\<close> into acc-123, one step at a time.\<close>

lemma accounts_initial: "accounts = accounts_with (Finite False (5003 * 2 ^ 1072))"
  by (rule ext) (simp add: accounts_with_def accounts_def)

lemma accounts_with_lookup:
  "accounts_with b ''acc-123'' = Some ((the (accounts ''acc-123''))\<lparr>Balance := b\<rparr>)"
  by (simp add: accounts_with_def)

lemma huge_deposit_step:
  assumes "fadd b (Finite False (2 ^ 2097)) = c"
  shows "handler huge_deposit (accounts_with b) =
     (respondAccount ((the (accounts ''acc-123''))\<lparr>Balance := c\<rparr>) huge_deposit,
      accounts_with c)"
proof -
  let ?a = "(the (accounts ''acc-123''))\<lparr>Balance := b\<rparr>"
  let ?t = "\<lparr>Amount = Finite False (2 ^ 2097)\<rparr>"
  have 1: "CHR ''/'' \<notin> set ''acc-123''" by simp
  have 2: "accounts_with b ''acc-123'' = Some ?a" by (rule accounts_with_lookup)
  have 3: "ReqMethod huge_deposit = ''POST''" by (simp add: huge_deposit_def request_def)
  have 4: "URLPath huge_deposit = ''/accounts/'' @ ''acc-123'' @ ''/deposit''"
    by (simp add: huge_deposit_def request_def)
  have 5: "Body huge_deposit = Some ?t" by (simp add: huge_deposit_def request_def)
  have 6: "float_lt fzero (Amount ?t)" by (simp add: fzero_def signed_def)
  have b: "fadd (Balance ?a) (Amount ?t) = c" using assms by simp
  show ?thesis
    unfolding deposit_success [where accts = "accounts_with b" and i = "''acc-123''",
        OF 1 2 3 4 5 6] b
    by (simp add: accounts_with_def)
qed

lemma huge_deposit_first:
  "handler huge_deposit accounts =
     (respondAccount ((the (accounts ''acc-123''))\<lparr>Balance := Finite False (2 ^ 2097)\<rparr>)
        huge_deposit,
      accounts_with (Finite False (2 ^ 2097)))"
  using huge_deposit_step [OF fadd_1250_75_huge]
  by (simp only: accounts_initial [symmetric])

lemma huge_deposit_second:
  "handler huge_deposit (accounts_with (Finite False (2 ^ 2097))) =
     (respondAccount ((the (accounts ''acc-123''))\<lparr>Balance := Infinity False\<rparr>) huge_deposit,
      accounts_with (Infinity False))"
  by (rule huge_deposit_step [OF fadd_huge_huge])

text \<open>
  C3. For an account that exists and a deposit request whose body decodes to an amount
  greater than 0, the handler stores the old balance plus the amount; it answers 200 and,
  when the new balance is finite, writes the representation with that balance. When the sum
  overflows, the new balance is \<open>+Inf\<close>, \<open>Encode\<close> refuses it and the body stays empty:
  from the initial store, two deposits of \<open>2 ^ 1023\<close> into acc-123 are both answered 200,
  the second with no body, and leave the balance \<open>+Inf\<close>.
\<close>

theorem deposit_overflow_empty_body:
  "float_lt fzero (Finite False (2 ^ 2097)) \<and> in_range (Finite False (2 ^ 2097)) \<and>
   map Status (fst (serve [huge_deposit, huge_deposit] accounts)) = [200, 200] \<and>
   Written (fst (serve [huge_deposit, huge_deposit] accounts) ! 0) \<noteq> NoBody \<and>
   Written (fst (serve [huge_deposit, huge_deposit] accounts) ! 1) = NoBody \<and>
   map_option Balance (snd (serve [huge_deposit, huge_deposit] accounts) ''acc-123'') =
     Some (Infinity False)"
proof -
  let ?a = "the (accounts ''acc-123'')"
  have s: "serve [huge_deposit, huge_deposit] accounts =
      ([respondAccount (?a\<lparr>Balance := Finite False (2 ^ 2097)\<rparr>) huge_deposit,
        respondAccount (?a\<lparr>Balance := Infinity False\<rparr>) huge_deposit],
       accounts_with (Infinity False))"
    by (simp only: serve.simps huge_deposit_first huge_deposit_second prod.case)
  have r: "float_lt fzero (Finite False (2 ^ 2097))" "in_range (Finite False (2 ^ 2097))"
    by (simp_all add: fzero_def signed_def max_magnitude_def)
  show ?thesis
    unfolding s using r
    by (simp add: Status_respondAccount Written_respondAccount Encode_def
        addHATEOASLinks_fields accounts_with_lookup)
qed

text \<open>
  A withdrawal of an amount greater than 0 from an account with a balance greater than 0:
  the stored balance becomes the float64 difference, and the representation is written when
  that difference is finite.
\<close>

lemma withdraw_success:
  assumes "CHR ''/'' \<notin> set i" "accts i = Some acc" "ReqMethod r = ''POST''"
    and "URLPath r = ''/accounts/'' @ i @ ''/withdraw''"
    and "float_lt fzero (Balance acc)" "Body r = Some t" "float_lt fzero (Amount t)"
  shows "handler r accts =
     (respondAccount (acc\<lparr>Balance := fsub (Balance acc) (Amount t)\<rparr>) r,
      accts(i \<mapsto> acc\<lparr>Balance := fsub (Balance acc) (Amount t)\<rparr>))"
  unfolding handler_withdraw_at [OF assms(4)]
    withdraw_at [where accts = accts and i = i, OF assms(1-4)]
  using float_lt_not_le [OF assms(5)] float_lt_not_le [OF assms(7)] by (simp add: assms(6))

lemma withdraw_returns_representation:
  assumes "CHR ''/'' \<notin> set i" "accts i = Some acc" "ReqMethod r = ''POST''"
    and "URLPath r = ''/accounts/'' @ i @ ''/withdraw''"
    and "float_lt fzero (Balance acc)" "Body r = Some t" "float_lt fzero (Amount t)"
    and "is_finite (fsub (Balance acc) (Amount t))"
  shows "Status (fst (handler r accts)) = 200 \<and>
         Written (fst (handler r accts)) =
           AccountJSON (addHATEOASLinks (acc\<lparr>Balance := fsub (Balance acc) (Amount t)\<rparr>)
                          (''http://'' @ Host r)) \<and>
         snd (handler r accts) i = Some (acc\<lparr>Balance := fsub (Balance acc) (Amount t)\<rparr>)"
  unfolding withdraw_success [where accts = accts and i = i, OF assms(1-7)]
  using assms(8)
  by (simp add: Status_respondAccount Written_respondAccount Encode_def addHATEOASLinks_fields)

text \<open>A withdrawal of 1 from the infinite balance leaves it infinite.\<close>

lemma unit_withdrawal_infinite:
  "handler unit_withdrawal (accounts_with (Infinity False)) =
     (respondAccount ((the (accounts ''acc-123''))\<lparr>Balance := Infinity False\<rparr>)
        unit_withdrawal,
      accounts_with (Infinity False))"
proof -
  let ?a = "(the (accounts ''acc-123''))\<lparr>Balance := Infinity False\<rparr>"
  let ?t = "\<lparr>Amount = float_of_nat 1\<rparr>"
  have 1: "CHR ''/'' \<notin> set ''acc-123''" by simp
  have 2: "accounts_with (Infinity False) ''acc-123'' = Some ?a" by (rule accounts_with_lookup)
  have 3: "ReqMethod unit_withdrawal = ''POST''"
    by (simp add: unit_withdrawal_def request_def)
  have 4: "URLPath unit_withdrawal = ''/accounts/'' @ ''acc-123'' @ ''/withdraw''"
    by (simp add: unit_withdrawal_def request_def)
  have 5: "float_lt fzero (Balance ?a)" by (simp add: fzero_def)
  have 6: "Body unit_withdrawal = Some ?t" by (simp add: unit_withdrawal_def request_def)
  have 7: "float_lt fzero (Amount ?t)" by (simp add: fzero_def float_of_nat_def signed_def)
  have b: "fsub (Balance ?a) (Amount ?t) = Infinity False"
    by (simp add: fsub_def float_of_nat_def)
  show ?thesis
    unfolding withdraw_success [where accts = "accounts_with (Infinity False)"
        and i = "''acc-123''", OF 1 2 3 4 5 6 7] b
    by (simp add: accounts_with_def)
qed

text \<open>
  C4. For an account that exists with a balance greater than 0 and a withdraw request whose
  body decodes to an amount greater than 0, the handler stores the old balance minus the
  amount; it answers 200 and, when the new balance is finite, writes the representation
  with that balance. Once a deposit has overflowed, the balance is \<open>+Inf\<close> and stays so:
  after the two deposits of \<open>2 ^ 1023\<close>, a withdrawal of 1 from acc-123 is answered 200
  with no body.
\<close>

theorem withdraw_infinite_empty_body:
  "float_lt fzero (Infinity False) \<and>
   float_lt fzero (float_of_nat 1) \<and> in_range (float_of_nat 1) \<and>
   map Status (fst (serve [huge_deposit, huge_deposit, unit_withdrawal] accounts)) =
     [200, 200, 200] \<and>
   Written (fst (serve [huge_deposit, huge_deposit, unit_withdrawal] accounts) ! 2) = NoBody \<and>
   map_option Balance
     (snd (serve [huge_deposit, huge_deposit] accounts) ''acc-123'') = Some (Infinity False) \<and>
   map_option Balance
     (snd (serve [huge_deposit, huge_deposit, unit_withdrawal] accounts) ''acc-123'') =
     Some (fsub (Infinity False) (float_of_nat 1))"
proof -
  let ?a = "the (accounts ''acc-123'')"
  have s2: "serve [huge_deposit, huge_deposit] accounts =
      ([respondAccount (?a\<lparr>Balance := Finite False (2 ^ 2097)\<rparr>) huge_deposit,
        respondAccount (?a\<lparr>Balance := Infinity False\<rparr>) huge_deposit],
       accounts_with (Infinity False))"
    by (simp only: serve.simps huge_deposit_first huge_deposit_second prod.case)
  have s3: "serve [huge_deposit, huge_deposit, unit_withdrawal] accounts =
      ([respondAccount (?a\<lparr>Balance := Finite False (2 ^ 2097)\<rparr>) huge_deposit,
        respondAccount (?a\<lparr>Balance := Infinity False\<rparr>) huge_deposit,
        respondAccount (?a\<lparr>Balance := Infinity False\<rparr>) unit_withdrawal],
       accounts_with (Infinity False))"
    by (simp only: serve.simps huge_deposit_first huge_deposit_second
        unit_withdrawal_infinite prod.case)
  have r: "float_lt fzero (Infinity False)" "float_lt fzero (float_of_nat 1)"
    "in_range (float_of_nat 1)" "fsub (Infinity False) (float_of_nat 1) = Infinity False"
    by (simp_all add: fzero_def signed_def max_magnitude_def float_of_nat_def fsub_def)
  show ?thesis
    unfolding s2 s3 using r
    by (simp add: Status_respondAccount Written_respondAccount Encode_def
        addHATEOASLinks_fields accounts_with_lookup)
qed

text \<open>
  C5, as amended. For an account that exists, a deposit request, and a withdraw request when
  the balance is greater than 0, for whose body \<open>Decode\<close> returns an error or whose decoded
  amount is \<open>\<le> 0\<close> gets the status 400 and leaves the store, the balance included, as it
  was. (\<open>Decode\<close> reads the first JSON value of the body; what follows it is not examined.)
\<close>

theorem invalid_amount_rejected:
  assumes "CHR ''/'' \<notin> set i" "accts i = Some acc" "ReqMethod r = ''POST''"
    and "Body r = None \<or> (\<exists>t. Body r = Some t \<and> float_le (Amount t) fzero)"
    and "URLPath r = ''/accounts/'' @ i @ ''/deposit'' \<or>
         (URLPath r = ''/accounts/'' @ i @ ''/withdraw'' \<and> float_lt fzero (Balance acc))"
  shows "Status (fst (handler r accts)) = 400 \<and> snd (handler r accts) = accts"
proof -
  from assms(5) show ?thesis
  proof
    assume p: "URLPath r = ''/accounts/'' @ i @ ''/deposit''"
    show ?thesis
      unfolding handler_deposit_at [OF p]
        deposit_at [where accts = accts and i = i, OF assms(1-3) p]
      using assms(4) by (auto simp add: respond_fields)
  next
    assume "URLPath r = ''/accounts/'' @ i @ ''/withdraw'' \<and> float_lt fzero (Balance acc)"
    then have p: "URLPath r = ''/accounts/'' @ i @ ''/withdraw''"
      and b: "\<not> float_le (Balance acc) fzero"
      by (simp_all add: float_lt_not_le)
    show ?thesis
      unfolding handler_withdraw_at [OF p]
        withdraw_at [where accts = accts and i = i, OF assms(1-3) p]
      using assms(4) b by (auto simp add: respond_fields)
  qed
qed

theorem invalid_amount_rejected_witness:
  "float_lt fzero (Balance (the (accounts ''acc-123''))) \<and>
   float_le (fneg (float_of_nat 5)) fzero \<and>
   Status (fst (handler (request ''POST'' ''/accounts/acc-123/withdraw''
                           (Some \<lparr>Amount = fneg (float_of_nat 5)\<rparr>)) accounts)) = 400 \<and>
   snd (handler (request ''POST'' ''/accounts/acc-123/withdraw''
                   (Some \<lparr>Amount = fneg (float_of_nat 5)\<rparr>)) accounts) = accounts"
proof -
  define r where
    "r = request ''POST'' ''/accounts/acc-123/withdraw''
           (Some \<lparr>Amount = fneg (float_of_nat 5)\<rparr>)"
  define acc where "acc = the (accounts ''acc-123'')"
  have 1: "CHR ''/'' \<notin> set ''acc-123''" by simp
  have 2: "accounts ''acc-123'' = Some acc" by (simp add: acc_def accounts_def)
  have 3: "ReqMethod r = ''POST''" by (simp add: r_def request_def)
  have le: "float_le (fneg (float_of_nat 5)) fzero"
    by (simp add: float_of_nat_def fzero_def signed_def)
  then have 4: "Body r = None \<or> (\<exists>t. Body r = Some t \<and> float_le (Amount t) fzero)"
    by (simp add: r_def request_def)
  have pos: "float_lt fzero (Balance acc)"
    by (simp add: acc_def accounts_def fzero_def signed_def)
  then have 5: "URLPath r = ''/accounts/'' @ ''acc-123'' @ ''/deposit'' \<or>
      (URLPath r = ''/accounts/'' @ ''acc-123'' @ ''/withdraw'' \<and> float_lt fzero (Balance acc))"
    by (simp add: r_def request_def)
  from invalid_amount_rejected [where accts = accounts and i = "''acc-123''", OF 1 2 3 4 5]
    pos le
  show ?thesis
    unfolding r_def acc_def by simp
qed

text \<open>
  The claim as it was written fails for a body that is malformed after its first JSON
  value: the deposit with the body \<open>{"amount": 5}}}\<close> into acc-456 is answered 200 and
  changes the balance from -150.25 to -145.25.
\<close>

theorem invalid_amount_counterexample:
  "trailingData deposit_with_trailing_braces \<and>
   Body deposit_with_trailing_braces \<noteq> None \<and>
   fst (DefaultServeMux deposit_with_trailing_braces accounts) =
     Handled (fst (handler deposit_with_trailing_braces accounts)) \<and>
   Status (fst (handler deposit_with_trailing_braces accounts)) = 200 \<and>
   map_option Balance (accounts ''acc-456'') = Some (Finite True (601 * 2 ^ 1072)) \<and>
   map_option Balance (snd (handler deposit_with_trailing_braces accounts) ''acc-456'') =
     Some (Finite True (581 * 2 ^ 1072))"
proof -
  define r where "r = deposit_with_trailing_braces"
  define acc where "acc = the (accounts ''acc-456'')"
  have 1: "CHR ''/'' \<notin> set ''acc-456''" by simp
  have 2: "accounts ''acc-456'' = Some acc" by (simp add: acc_def accounts_def)
  have 3: "ReqMethod r = ''POST''"
    by (simp add: r_def deposit_with_trailing_braces_def request_def)
  have 4: "URLPath r = ''/accounts/'' @ ''acc-456'' @ ''/deposit''"
    by (simp add: r_def deposit_with_trailing_braces_def request_def)
  have 5: "Body r = Some \<lparr>Amount = float_of_nat 5\<rparr>"
    by (simp add: r_def deposit_with_trailing_braces_def request_def)
  have 6: "float_lt fzero (Amount \<lparr>Amount = float_of_nat 5\<rparr>)"
    by (simp add: float_of_nat_def fzero_def signed_def)
  have t: "trailingData r"
    by (simp add: r_def deposit_with_trailing_braces_def request_def trailingData_def
        isSpace_def)
  have b: "Balance acc = Finite True (601 * 2 ^ 1072)" by (simp add: acc_def accounts_def)
  then have f: "fadd (Balance acc) (float_of_nat 5) = Finite True (581 * 2 ^ 1072)"
    by (simp only: fadd_minus_150_25_five)
  have h: "Status (fst (handler r accounts)) = 200 \<and>
      map_option Balance (snd (handler r accounts) ''acc-456'') =
        Some (Finite True (581 * 2 ^ 1072))"
    unfolding deposit_success [where accts = accounts and i = "''acc-456''", OF 1 2 3 4 5 6]
    using f by (simp add: Status_respondAccount)
  have 7: "ReqMethod r \<noteq> ''CONNECT''" using 3 by simp
  have 8: "''acc-456'' \<noteq> []" "''acc-456'' \<noteq> ''.''" "''acc-456'' \<noteq> ''..''" by simp_all
  have 9: "URLPath r = ''/accounts/'' @ ''acc-456'' \<or>
      URLPath r = ''/accounts/'' @ ''acc-456'' @ ''/deposit'' \<or>
      URLPath r = ''/accounts/'' @ ''acc-456'' @ ''/withdraw''"
    using 4 by (rule disjI2 [OF disjI1])
  have m: "fst (DefaultServeMux r accounts) = Handled (fst (handler r accounts))"
    unfolding mux_passes_account_paths [where accts = accounts, OF 7 1 8 9] by simp
  from h t 5 2 b m show ?thesis unfolding r_def by simp
qed

text \<open>
  C6, as amended. For a GET request of \<open>/accounts/{id}\<close> to the server, its path sent
  without percent escapes: if the path is not clean (it has a doubled slash or a \<open>.\<close> or
  \<open>..\<close> element), the mux answers with a redirect and nothing changes. If the path is
  clean, the mux passes the request to the handler, and
  then: if the path ends in \<open>/deposit\<close> or \<open>/withdraw\<close>, the answer is 405 with no body;
  otherwise, if the id is not in the store, the answer is 404 with no body, and if the id is
  in the store, the store stays as it was and, when the balance is finite, the answer is 200
  with the representation that has the stored accountId, accountHolder, balance and
  currency and the links.
\<close>

theorem get_account_found_or_404:
  assumes "ReqMethod r = ''GET''" "URLPath r = ''/accounts/'' @ i"
  shows "(cleanPath (URLPath r) \<noteq> URLPath r \<longrightarrow>
            (\<exists>p. DefaultServeMux r accts = (Redirect p, accts))) \<and>
         (cleanPath (URLPath r) = URLPath r \<longrightarrow>
            (if HasSuffix (URLPath r) ''/deposit'' \<or> HasSuffix (URLPath r) ''/withdraw''
             then DefaultServeMux r accts = (Handled (respond 405 NoBody), accts)
             else case accts i of
                    None \<Rightarrow> DefaultServeMux r accts = (Handled (respond 404 NoBody), accts)
                  | Some acc \<Rightarrow>
                      snd (DefaultServeMux r accts) = accts \<and>
                      (is_finite (Balance acc) \<longrightarrow>
                         (\<exists>resp rep. fst (DefaultServeMux r accts) = Handled resp \<and>
                            Status resp = 200 \<and> Written resp = AccountJSON rep \<and>
                            AccountID rep = AccountID acc \<and>
                            AccountHolder rep = AccountHolder acc \<and>
                            Balance rep = Balance acc \<and> Currency rep = Currency acc \<and>
                            Links rep = Links (addHATEOASLinks acc (''http://'' @ Host r))))))"
proof (intro conjI impI)
  have nc: "ReqMethod r \<noteq> ''CONNECT''" using assms(1) by simp
  {
    assume "cleanPath (URLPath r) \<noteq> URLPath r"
    with nc show "\<exists>p. DefaultServeMux r accts = (Redirect p, accts)" by (rule mux_redirects)
  }
  {
    assume c: "cleanPath (URLPath r) = URLPath r"
    note m = mux_passes [OF nc c assms(2)]
    show "if HasSuffix (URLPath r) ''/deposit'' \<or> HasSuffix (URLPath r) ''/withdraw''
          then DefaultServeMux r accts = (Handled (respond 405 NoBody), accts)
          else case accts i of
                 None \<Rightarrow> DefaultServeMux r accts = (Handled (respond 404 NoBody), accts)
               | Some acc \<Rightarrow>
                   snd (DefaultServeMux r accts) = accts \<and>
                   (is_finite (Balance acc) \<longrightarrow>
                      (\<exists>resp rep. fst (DefaultServeMux r accts) = Handled resp \<and>
                         Status resp = 200 \<and> Written resp = AccountJSON rep \<and>
                         AccountID rep = AccountID acc \<and>
                         AccountHolder rep = AccountHolder acc \<and>
                         Balance rep = Balance acc \<and> Currency rep = Currency acc \<and>
                         Links rep = Links (addHATEOASLinks acc (''http://'' @ Host r))))"
    proof (cases "HasSuffix (URLPath r) ''/deposit'' \<or> HasSuffix (URLPath r) ''/withdraw''")
      case True
      then show ?thesis unfolding m handler_get_suffix [OF assms(1) True] by simp
    next
      case False
      then have ns: "\<not> HasSuffix (URLPath r) ''/deposit''" "\<not> HasSuffix (URLPath r) ''/withdraw''"
        by simp_all
      show ?thesis
      proof (cases "accts i")
        case None
        show ?thesis
          unfolding m handler_get_absent [where accts = accts and i = i, OF assms ns None] using False None by simp
      next
        case (Some acc)
        show ?thesis
          unfolding m handler_get_present [where accts = accts and i = i, OF assms ns Some] using False Some
          by (simp add: Status_respondAccount Written_respondAccount Encode_def
              addHATEOASLinks_fields)
      qed
    qed
  }
qed

theorem get_account_found_or_404_witness:
  "accounts ''acc-123'' \<noteq> None \<and> accounts ''acc-789'' = None \<and>
   cleanPath ''/accounts/acc-123'' = ''/accounts/acc-123'' \<and>
   (\<exists>resp rep.
      fst (DefaultServeMux (request ''GET'' ''/accounts/acc-123'' None) accounts) =
        Handled resp \<and>
      Status resp = 200 \<and> Written resp = AccountJSON rep \<and>
      AccountID rep = ''acc-123'' \<and> Balance rep = Finite False (5003 * 2 ^ 1072)) \<and>
   DefaultServeMux (request ''GET'' ''/accounts/acc-789'' None) accounts =
     (Handled (respond 404 NoBody), accounts)"
proof -
  define r where "r = request ''GET'' ''/accounts/acc-123'' None"
  define q where "q = request ''GET'' ''/accounts/acc-789'' None"
  define acc where "acc = the (accounts ''acc-123'')"
  have a: "accounts ''acc-123'' = Some acc" by (simp add: acc_def accounts_def)
  have n: "accounts ''acc-789'' = None" by (simp add: accounts_def)
  have f: "is_finite (Balance acc)" "AccountID acc = ''acc-123''"
    "Balance acc = Finite False (5003 * 2 ^ 1072)"
    by (simp_all add: acc_def accounts_def)
  have c: "cleanPath ''/accounts/acc-123'' = ''/accounts/acc-123''"
    by (simp add: cleanPath_def Clean_def)
  have r: "ReqMethod r = ''GET''" "URLPath r = ''/accounts/'' @ ''acc-123''"
    by (simp_all add: r_def request_def)
  have rc: "cleanPath (URLPath r) = URLPath r"
    "\<not> (HasSuffix (URLPath r) ''/deposit'' \<or> HasSuffix (URLPath r) ''/withdraw'')"
    by (simp_all add: r_def request_def HasSuffix_def cleanPath_def Clean_def)
  have q: "ReqMethod q = ''GET''" "URLPath q = ''/accounts/'' @ ''acc-789''"
    by (simp_all add: q_def request_def)
  have qc: "cleanPath (URLPath q) = URLPath q"
    "\<not> (HasSuffix (URLPath q) ''/deposit'' \<or> HasSuffix (URLPath q) ''/withdraw'')"
    by (simp_all add: q_def request_def HasSuffix_def cleanPath_def Clean_def)
  from get_account_found_or_404 [where accts = accounts, OF r]
  have "case accounts ''acc-123'' of
          None \<Rightarrow> DefaultServeMux r accounts = (Handled (respond 404 NoBody), accounts)
        | Some acc \<Rightarrow>
            snd (DefaultServeMux r accounts) = accounts \<and>
            (is_finite (Balance acc) \<longrightarrow>
               (\<exists>resp rep. fst (DefaultServeMux r accounts) = Handled resp \<and>
                  Status resp = 200 \<and> Written resp = AccountJSON rep \<and>
                  AccountID rep = AccountID acc \<and>
                  AccountHolder rep = AccountHolder acc \<and>
                  Balance rep = Balance acc \<and> Currency rep = Currency acc \<and>
                  Links rep = Links (addHATEOASLinks acc (''http://'' @ Host r))))"
    using rc by simp
  then have 1: "\<exists>resp rep. fst (DefaultServeMux r accounts) = Handled resp \<and>
      Status resp = 200 \<and> Written resp = AccountJSON rep \<and>
      AccountID rep = ''acc-123'' \<and> Balance rep = Finite False (5003 * 2 ^ 1072)"
    unfolding a option.case using f by auto
  from get_account_found_or_404 [where accts = accounts, OF q]
  have "case accounts ''acc-789'' of
          None \<Rightarrow> DefaultServeMux q accounts = (Handled (respond 404 NoBody), accounts)
        | Some acc \<Rightarrow>
            snd (DefaultServeMux q accounts) = accounts \<and>
            (is_finite (Balance acc) \<longrightarrow>
               (\<exists>resp rep. fst (DefaultServeMux q accounts) = Handled resp \<and>
                  Status resp = 200 \<and> Written resp = AccountJSON rep \<and>
                  AccountID rep = AccountID acc \<and>
                  AccountHolder rep = AccountHolder acc \<and>
                  Balance rep = Balance acc \<and> Currency rep = Currency acc \<and>
                  Links rep = Links (addHATEOASLinks acc (''http://'' @ Host q))))"
    using qc by simp
  then have 2: "DefaultServeMux q accounts = (Handled (respond 404 NoBody), accounts)"
    unfolding n option.case .
  from 1 2 a n c show ?thesis unfolding r_def q_def by simp
qed

text \<open>
  The claim as it was written fails for the ids \<open>deposit\<close> and \<open>..\<close>, which are not in the
  store: a GET of \<open>/accounts/deposit\<close> is answered 405 by the deposit handler, and a GET of
  \<open>/accounts/..\<close> is answered by the mux with a redirect to \<open>/\<close>; neither is answered 404.
\<close>

theorem get_account_counterexample:
  "accounts ''deposit'' = None \<and>
   Status (fst (handler (request ''GET'' ''/accounts/deposit'' None) accounts)) = 405 \<and>
   fst (DefaultServeMux (request ''GET'' ''/accounts/deposit'' None) accounts) =
     Handled (respond 405 NoBody) \<and>
   accounts ''..'' = None \<and>
   fst (DefaultServeMux (request ''GET'' ''/accounts/..'' None) accounts) = Redirect ''/''"
  by (simp add: accounts_def request_def handler_def HasSuffix_def HasPrefix_def deposit_def
      DefaultServeMux_def cleanPath_def Clean_def Let_def respond_fields)

text \<open>
  C7. The withdraw handler does not compare the amount with the balance: for an account
  with a balance \<open>b > 0\<close> and a decoded amount \<open>a > b\<close> (a finite binary64 value, as every
  decoded amount is), the request is answered 200 with the updated representation, the
  stored balance becomes \<open>b - a\<close>, which is negative, and the representation has no
  \<open>withdraw\<close> link.
\<close>

theorem withdraw_beyond_balance:
  assumes "CHR ''/'' \<notin> set i" "accts i = Some acc" "ReqMethod r = ''POST''"
    and "URLPath r = ''/accounts/'' @ i @ ''/withdraw''"
    and "Body r = Some t" "in_range (Amount t)"
    and "float_lt fzero (Balance acc)" "float_lt (Balance acc) (Amount t)"
  shows "Status (fst (handler r accts)) = 200 \<and>
         (\<exists>rep. Written (fst (handler r accts)) = AccountJSON rep \<and>
                Balance rep = fsub (Balance acc) (Amount t) \<and>
                Links rep ''withdraw'' = None) \<and>
         map_option Balance (snd (handler r accts) i) = Some (fsub (Balance acc) (Amount t)) \<and>
         float_lt (fsub (Balance acc) (Amount t)) fzero"
proof -
  from fsub_below [OF assms(7,8,6)] obtain m where
    m: "0 < m" and s: "fsub (Balance acc) (Amount t) = Finite True m" by blast
  have pos: "\<not> float_le (Balance acc) fzero" using assms(7) by (rule float_lt_not_le)
  have amt: "\<not> float_le (Amount t) fzero"
  proof
    assume "float_le (Amount t) fzero"
    with assms(7,8) show False
      by (cases "Amount t"; cases "Balance acc")
        (auto simp add: fzero_def signed_def split: if_splits)
  qed
  show ?thesis
    unfolding handler_withdraw_at [OF assms(4)]
      withdraw_at [where accts = accts and i = i, OF assms(1-4)]
    using pos amt m
    by (simp add: assms(5) s respondAccount_def Encode_def Let_def addHATEOASLinks_links
        addHATEOASLinks_fields fzero_def signed_def)
qed

theorem withdraw_beyond_balance_witness:
  "Status (fst (handler (request ''POST'' ''/accounts/acc-123/withdraw''
                           (Some \<lparr>Amount = float_of_nat 2000\<rparr>)) accounts)) = 200 \<and>
   (\<exists>rep. Written (fst (handler (request ''POST'' ''/accounts/acc-123/withdraw''
                                   (Some \<lparr>Amount = float_of_nat 2000\<rparr>)) accounts)) =
            AccountJSON rep \<and>
          Balance rep =
            fsub (Balance (the (accounts ''acc-123''))) (Amount \<lparr>Amount = float_of_nat 2000\<rparr>) \<and>
          Links rep ''withdraw'' = None) \<and>
   map_option Balance
     (snd (handler (request ''POST'' ''/accounts/acc-123/withdraw''
                      (Some \<lparr>Amount = float_of_nat 2000\<rparr>)) accounts) ''acc-123'') =
     Some (fsub (Balance (the (accounts ''acc-123''))) (Amount \<lparr>Amount = float_of_nat 2000\<rparr>)) \<and>
   float_lt
     (fsub (Balance (the (accounts ''acc-123''))) (Amount \<lparr>Amount = float_of_nat 2000\<rparr>))
     fzero"
proof -
  have 1: "CHR ''/'' \<notin> set ''acc-123''" by simp
  have 2: "accounts ''acc-123'' = Some (the (accounts ''acc-123''))"
    by (simp add: accounts_def)
  have 3: "ReqMethod (request ''POST'' ''/accounts/acc-123/withdraw''
      (Some \<lparr>Amount = float_of_nat 2000\<rparr>)) = ''POST''"
    by (simp add: request_def)
  have 4: "URLPath (request ''POST'' ''/accounts/acc-123/withdraw''
      (Some \<lparr>Amount = float_of_nat 2000\<rparr>)) = ''/accounts/'' @ ''acc-123'' @ ''/withdraw''"
    by (simp add: request_def)
  have 5: "Body (request ''POST'' ''/accounts/acc-123/withdraw''
      (Some \<lparr>Amount = float_of_nat 2000\<rparr>)) = Some \<lparr>Amount = float_of_nat 2000\<rparr>"
    by (simp add: request_def)
  have 6: "in_range (Amount \<lparr>Amount = float_of_nat 2000\<rparr>)"
    by (simp add: float_of_nat_def max_magnitude_def)
  have 7: "float_lt fzero (Balance (the (accounts ''acc-123'')))"
    by (simp add: accounts_def fzero_def signed_def)
  have 8: "float_lt (Balance (the (accounts ''acc-123''))) (Amount \<lparr>Amount = float_of_nat 2000\<rparr>)"
    by (simp add: accounts_def float_of_nat_def signed_def)
  show ?thesis
    by (rule withdraw_beyond_balance [where accts = accounts and i = "''acc-123''",
          OF 1 2 3 4 5 6 7 8])
qed

text \<open>What a handler can do to the store.\<close>

lemma getAccount_store: "snd (getAccount r accts) = accts"
  by (simp add: getAccount_def Let_def split: option.splits)

lemma deposit_frame:
  "deposit r accts = (resp, accts') \<Longrightarrow>
     accts' = accts \<or>
     (Status resp = 200 \<and> ReqMethod r = ''POST'' \<and> 3 \<le> length (Split (URLPath r)) \<and>
      (\<exists>acc b. accts (Split (URLPath r) ! 2) = Some acc \<and>
         accts' = accts(Split (URLPath r) ! 2 \<mapsto> acc\<lparr>Balance := b\<rparr>)))"
  by (auto simp add: deposit_def Let_def Status_respondAccount split: if_splits option.splits)

lemma withdraw_frame:
  "withdraw r accts = (resp, accts') \<Longrightarrow>
     accts' = accts \<or>
     (Status resp = 200 \<and> ReqMethod r = ''POST'' \<and> 3 \<le> length (Split (URLPath r)) \<and>
      (\<exists>acc b. accts (Split (URLPath r) ! 2) = Some acc \<and>
         accts' = accts(Split (URLPath r) ! 2 \<mapsto> acc\<lparr>Balance := b\<rparr>)))"
  by (auto simp add: withdraw_def Let_def Status_respondAccount split: if_splits option.splits)

lemma handler_frame:
  "handler r accts = (resp, accts') \<Longrightarrow>
     accts' = accts \<or>
     (Status resp = 200 \<and> ReqMethod r = ''POST'' \<and> 3 \<le> length (Split (URLPath r)) \<and>
      (\<exists>acc b. accts (Split (URLPath r) ! 2) = Some acc \<and>
         accts' = accts(Split (URLPath r) ! 2 \<mapsto> acc\<lparr>Balance := b\<rparr>)))"
  unfolding handler_def Let_def
  using deposit_frame [of r accts resp accts'] withdraw_frame [of r accts resp accts']
    getAccount_store [of r accts]
  by (auto split: if_splits)

text \<open>
  C8. No request adds an id to the store or removes one; every stored account keeps its
  AccountID, AccountHolder, Currency and Links and changes in its Balance at most;
  only the account that the path names (the third part of the path) can change, and only by
  a POST that is answered 200; a GET changes nothing, and getAccount, which puts the links
  on a copy, never changes the store.
\<close>

theorem only_target_balance_changes:
  assumes "handler r accts = (resp, accts')"
  shows "dom accts' = dom accts \<and>
         (\<forall>i acc. accts i = Some acc \<longrightarrow> (\<exists>b. accts' i = Some (acc\<lparr>Balance := b\<rparr>))) \<and>
         (\<forall>i. accts' i \<noteq> accts i \<longrightarrow>
            3 \<le> length (Split (URLPath r)) \<and> i = Split (URLPath r) ! 2 \<and>
            ReqMethod r = ''POST'' \<and> Status resp = 200) \<and>
         (ReqMethod r = ''GET'' \<longrightarrow> accts' = accts) \<and>
         snd (getAccount r accts) = accts"
proof -
  have same: "\<exists>b. acc = acc\<lparr>Balance := b\<rparr>" for acc :: Account
    by (rule exI [of _ "Balance acc"]) simp
  from handler_frame [OF assms] show ?thesis
  proof
    assume "accts' = accts"
    then show ?thesis by (auto simp add: getAccount_store same)
  next
    assume "Status resp = 200 \<and> ReqMethod r = ''POST'' \<and> 3 \<le> length (Split (URLPath r)) \<and>
      (\<exists>acc b. accts (Split (URLPath r) ! 2) = Some acc \<and>
         accts' = accts(Split (URLPath r) ! 2 \<mapsto> acc\<lparr>Balance := b\<rparr>))"
    then obtain acc b where st: "Status resp = 200" "ReqMethod r = ''POST''"
        "3 \<le> length (Split (URLPath r))"
      and a: "accts (Split (URLPath r) ! 2) = Some acc"
      and a': "accts' = accts(Split (URLPath r) ! 2 \<mapsto> acc\<lparr>Balance := b\<rparr>)"
      by blast
    have "dom accts' = dom accts" using a a' by auto
    moreover have "\<forall>i acc. accts i = Some acc \<longrightarrow> (\<exists>b. accts' i = Some (acc\<lparr>Balance := b\<rparr>))"
    proof (intro allI impI)
      fix i acc0 assume h: "accts i = Some acc0"
      show "\<exists>b. accts' i = Some (acc0\<lparr>Balance := b\<rparr>)"
      proof (cases "i = Split (URLPath r) ! 2")
        case True
        then show ?thesis using a a' h by auto
      next
        case False
        then have "accts' i = Some (acc0\<lparr>Balance := Balance acc0\<rparr>)" using a' h by simp
        then show ?thesis by blast
      qed
    qed
    moreover have "\<forall>i. accts' i \<noteq> accts i \<longrightarrow>
            3 \<le> length (Split (URLPath r)) \<and> i = Split (URLPath r) ! 2 \<and>
            ReqMethod r = ''POST'' \<and> Status resp = 200"
      using st a' by auto
    moreover have "ReqMethod r = ''GET'' \<longrightarrow> accts' = accts" using st by simp
    ultimately show ?thesis by (simp add: getAccount_store)
  qed
qed

theorem only_target_balance_changes_witness:
  "dom (snd (handler (request ''POST'' ''/accounts/acc-456/deposit''
                        (Some \<lparr>Amount = float_of_nat 100\<rparr>)) accounts)) = dom accounts \<and>
   snd (handler (request ''POST'' ''/accounts/acc-456/deposit''
                   (Some \<lparr>Amount = float_of_nat 100\<rparr>)) accounts) ''acc-123'' =
     accounts ''acc-123'' \<and>
   snd (handler (request ''POST'' ''/accounts/acc-456/deposit''
                   (Some \<lparr>Amount = float_of_nat 100\<rparr>)) accounts) ''acc-456'' \<noteq>
     accounts ''acc-456''"
proof -
  define r where
    "r = request ''POST'' ''/accounts/acc-456/deposit'' (Some \<lparr>Amount = float_of_nat 100\<rparr>)"
  define acc where "acc = the (accounts ''acc-456'')"
  have h: "handler r accounts = (fst (handler r accounts), snd (handler r accounts))" by simp
  have p: "Split (URLPath r) ! 2 = ''acc-456''" by (simp add: r_def request_def)
  have 1: "CHR ''/'' \<notin> set ''acc-456''" by simp
  have 2: "accounts ''acc-456'' = Some acc" by (simp add: acc_def accounts_def)
  have 3: "ReqMethod r = ''POST''" by (simp add: r_def request_def)
  have 4: "URLPath r = ''/accounts/'' @ ''acc-456'' @ ''/deposit''"
    by (simp add: r_def request_def)
  have 5: "Body r = Some \<lparr>Amount = float_of_nat 100\<rparr>" by (simp add: r_def request_def)
  have 6: "float_lt fzero (Amount \<lparr>Amount = float_of_nat 100\<rparr>)"
    by (simp add: float_of_nat_def fzero_def signed_def)
  have b: "Balance acc = Finite True (601 * 2 ^ 1072)" by (simp add: acc_def accounts_def)
  then have "fadd (Balance acc) (float_of_nat 100) = Finite True (201 * 2 ^ 1072)"
    by (simp only: fadd_minus_150_25_hundred)
  then have "Balance (acc\<lparr>Balance := fadd (Balance acc) (float_of_nat 100)\<rparr>) \<noteq> Balance acc"
    unfolding b by simp
  then have d: "Balance (acc\<lparr>Balance := fadd (Balance acc) (float_of_nat 100)\<rparr>) \<noteq> Balance acc" .
  have ne: "acc\<lparr>Balance := fadd (Balance acc) (float_of_nat 100)\<rparr> \<noteq> acc"
  proof
    assume "acc\<lparr>Balance := fadd (Balance acc) (float_of_nat 100)\<rparr> = acc"
    then have "Balance (acc\<lparr>Balance := fadd (Balance acc) (float_of_nat 100)\<rparr>) = Balance acc"
      by (rule arg_cong)
    with d show False by (rule notE)
  qed
  from ne have changed: "snd (handler r accounts) ''acc-456'' \<noteq> accounts ''acc-456''"
    unfolding deposit_success [where accts = accounts and i = "''acc-456''", OF 1 2 3 4 5 6]
    by (simp add: 2)
  from only_target_balance_changes [OF h] have
    dm: "dom (snd (handler r accounts)) = dom accounts" and
    o: "\<forall>i. snd (handler r accounts) i \<noteq> accounts i \<longrightarrow> i = Split (URLPath r) ! 2"
    by simp_all
  from o have "snd (handler r accounts) ''acc-123'' \<noteq> accounts ''acc-123'' \<longrightarrow>
      ''acc-123'' = Split (URLPath r) ! 2" by (rule spec)
  then have "snd (handler r accounts) ''acc-123'' = accounts ''acc-123''"
    unfolding p by simp
  with dm changed show ?thesis unfolding r_def by simp
qed

text \<open>
  C9. In the initial store the balance of acc-123 is 1250.75; a GET of
  \<open>/accounts/acc-123\<close> on it, from any host, is answered 200 with a representation whose
  link names are exactly self, deposit and withdraw.
\<close>

theorem initial_links_of_acc_123:
  "Option.bind (accounts ''acc-123'') (valof \<circ> Balance) = Some 1250.75 \<and>
   Status (fst (handler \<lparr>ReqMethod = ''GET'', URLPath = ''/accounts/acc-123'',
                          Host = h, Body = b, Trailing = t\<rparr> accounts)) = 200 \<and>
   (\<exists>rep. Written (fst (handler \<lparr>ReqMethod = ''GET'', URLPath = ''/accounts/acc-123'',
                                   Host = h, Body = b, Trailing = t\<rparr> accounts)) = AccountJSON rep \<and>
      dom (Links rep) = {''self'', ''deposit'', ''withdraw''})"
proof -
  have v: "Option.bind (accounts ''acc-123'') (valof \<circ> Balance) = Some 1250.75"
    using valof_initial_balances(1) by (simp add: accounts_def)
  have "Status (fst (handler \<lparr>ReqMethod = ''GET'', URLPath = ''/accounts/acc-123'',
                          Host = h, Body = b, Trailing = t\<rparr> accounts)) = 200 \<and>
   (\<exists>rep. Written (fst (handler \<lparr>ReqMethod = ''GET'', URLPath = ''/accounts/acc-123'',
                                   Host = h, Body = b, Trailing = t\<rparr> accounts)) = AccountJSON rep \<and>
      dom (Links rep) = {''self'', ''deposit'', ''withdraw''})"
    by (simp add: accounts_def handler_def HasSuffix_def getAccount_def TrimPrefix_def
        HasPrefix_def respondAccount_def Encode_def Let_def addHATEOASLinks_dom
        addHATEOASLinks_fields fzero_def signed_def)
  with v show ?thesis by simp
qed

text \<open>The content of a mapped catalog depends on the set of entries only.\<close>

lemma catalogContent_mapRepresentation:
  "catalogContent (mapRepresentation rep) =
     (\<lambda>e. (fst e, descHref (snd e),
            (case descMethod (snd e) of None \<Rightarrow> ''GET'' | Some m \<Rightarrow> m))) ` set (actionMap rep)"
  by (simp add: catalogContent_def mapRepresentation_def capabilityOf_def image_image)

lemma catalogEqual_same_actions:
  "set (actionMap rep1) = set (actionMap rep2) \<Longrightarrow>
   catalogEqual (mapRepresentation rep1) (mapRepresentation rep2)"
  by (simp add: catalogEqual_def catalogContent_mapRepresentation)

text \<open>After a poll that fetched a representation, the published catalog has its content.\<close>

lemma poll_content:
  "catalogContent (current (poll now (Inr rep) e)) = catalogContent (mapRepresentation rep)"
  by (simp add: poll_def Let_def catalogEqual_def catalogContent_def)

lemma poll_stable:
  "catalogEqual (mapRepresentation rep) (current e) \<Longrightarrow> poll now (Inr rep) e = e"
  by (simp add: poll_def Let_def)

text \<open>
  C10. For two consecutive polls that fetch representations with the same action map
  (the same entries, in any order), the second poll publishes nothing to any subscriber:
  every queue, the version number and the whole published catalog stay as the first poll
  left them.
\<close>

theorem identical_action_maps_no_notification:
  assumes "set (actionMap rep1) = set (actionMap rep2)"
  shows "queues (poll t2 (Inr rep2) (poll t1 (Inr rep1) e)) = queues (poll t1 (Inr rep1) e) \<and>
         version (current (poll t2 (Inr rep2) (poll t1 (Inr rep1) e))) =
           version (current (poll t1 (Inr rep1) e)) \<and>
         current (poll t2 (Inr rep2) (poll t1 (Inr rep1) e)) = current (poll t1 (Inr rep1) e)"
proof -
  have "catalogContent (mapRepresentation rep2) = catalogContent (mapRepresentation rep1)"
    using assms by (simp add: catalogContent_mapRepresentation)
  also have "\<dots> = catalogContent (current (poll t1 (Inr rep1) e))"
    by (rule poll_content [symmetric])
  finally have "catalogEqual (mapRepresentation rep2) (current (poll t1 (Inr rep1) e))"
    by (simp add: catalogEqual_def)
  then have "poll t2 (Inr rep2) (poll t1 (Inr rep1) e) = poll t1 (Inr rep1) e"
    by (rule poll_stable)
  then show ?thesis by simp
qed

theorem identical_action_maps_no_notification_witness:
  "set (actionMap fetched_in_order) = set (actionMap fetched_reordered) \<and>
   actionMap fetched_in_order \<noteq> actionMap fetched_reordered \<and>
   map length (queues (poll 5 (Inr fetched_in_order) (startup 2))) = [1, 1] \<and>
   version (current (poll 5 (Inr fetched_in_order) (startup 2))) = 1 \<and>
   queues (poll 10 (Inr fetched_reordered) (poll 5 (Inr fetched_in_order) (startup 2))) =
     queues (poll 5 (Inr fetched_in_order) (startup 2)) \<and>
   version (current (poll 10 (Inr fetched_reordered)
                       (poll 5 (Inr fetched_in_order) (startup 2)))) = 1"
proof -
  have s: "set (actionMap fetched_in_order) = set (actionMap fetched_reordered)"
    by (auto simp add: fetched_in_order_def fetched_reordered_def)
  have d: "actionMap fetched_in_order \<noteq> actionMap fetched_reordered"
    by (simp add: fetched_in_order_def fetched_reordered_def action_def)
  have p: "map length (queues (poll 5 (Inr fetched_in_order) (startup 2))) = [1, 1]"
    "version (current (poll 5 (Inr fetched_in_order) (startup 2))) = 1"
    by (simp_all add: poll_def startup_def Let_def catalogEqual_def catalogContent_def
        mapRepresentation_def fetched_in_order_def publish_def numeral_2_eq_2)
  from identical_action_maps_no_notification [OF s, of 10 5 "startup 2"] s d p
  show ?thesis by simp
qed

end
